theory Spec2Isabelle
  imports Main "HOL-Library.Char_ord" "HOL-Library.List_Lexorder" "HOL-Library.Sublist"
    "HOL-Library.AList" "HOL-Library.Multiset"
begin

section \<open>Strings and path functions\<close>

text \<open>
  Source: \<^verbatim>\<open>src/process_voc_dataset/range_dataset_ui.py\<close>, class
  \<^verbatim>\<open>FileProcessingThread\<close>.

  A \<^typ>\<open>string\<close> is a byte string: a POSIX file name as the directory stores it, and the
  UTF-8 encoding of a Python \<^verbatim>\<open>str\<close>. Python compares \<^verbatim>\<open>str\<close> values code point by
  code point, a proper prefix being smaller; UTF-8 keeps that order, and it is the order of
  \<^theory_text>\<open>List_Lexorder\<close> over \<^theory_text>\<open>Char_ord\<close>.
\<close>

text \<open>
  \<^verbatim>\<open>str.lower()\<close>. Only the letters A to Z are mapped: no character outside ASCII
  lower-cases to one of the characters of \<^verbatim>\<open>.xml\<close>, \<^verbatim>\<open>.jpg\<close>, \<^verbatim>\<open>.jpeg\<close>, \<^verbatim>\<open>.png\<close>,
  which are all the source compares a lower-cased string with.
\<close>

definition lower_char :: "char \<Rightarrow> char" where
  "lower_char c =
     (case map_of (zip ''ABCDEFGHIJKLMNOPQRSTUVWXYZ'' ''abcdefghijklmnopqrstuvwxyz'') c of
        Some d \<Rightarrow> d
      | None \<Rightarrow> c)"

definition lower :: "string \<Rightarrow> string" where
  "lower s = map lower_char s"

text \<open>\<^verbatim>\<open>s.endswith(t)\<close> and \<^verbatim>\<open>s.startswith(t)\<close>.\<close>

definition endswith :: "string \<Rightarrow> string \<Rightarrow> bool" where
  "endswith s t = (length t \<le> length s \<and> drop (length s - length t) s = t)"

definition startswith :: "string \<Rightarrow> string \<Rightarrow> bool" where
  "startswith s t = (take (length t) s = t)"

text \<open>
  \<^verbatim>\<open>p.rfind(c)\<close> for a one-character \<^verbatim>\<open>c\<close>: the last index of \<^verbatim>\<open>c\<close>, or -1.
\<close>

fun rfind :: "string \<Rightarrow> char \<Rightarrow> int" where
  "rfind [] c = -1"
| "rfind (x # xs) c =
     (let r = rfind xs c in
      if r \<ge> 0 then r + 1 else if x = c then 0 else -1)"

text \<open>
  \<^verbatim>\<open>os.path.splitext\<close> of \<^verbatim>\<open>posixpath\<close> (\<^verbatim>\<open>genericpath._splitext\<close> with separator
  \<^verbatim>\<open>/\<close> and no alternative separator): the extension starts at the last dot, unless only
  dots lie between the last separator and that dot.
\<close>

definition splitext :: "string \<Rightarrow> string \<times> string" where
  "splitext p =
     (let sepIndex = rfind p (CHR ''/'');
          dotIndex = rfind p (CHR ''.'')
      in if dotIndex > sepIndex \<and>
            list_ex (\<lambda>c. c \<noteq> CHR ''.'')
              (take (nat (dotIndex - (sepIndex + 1))) (drop (nat (sepIndex + 1)) p))
         then (take (nat dotIndex) p, drop (nat dotIndex) p)
         else (p, []))"

text \<open>\<^verbatim>\<open>os.path.join(a, b)\<close> of \<^verbatim>\<open>posixpath\<close>, for two components.\<close>

definition os_path_join :: "string \<Rightarrow> string \<Rightarrow> string" where
  "os_path_join a b =
     (if startswith b ''/'' then b
      else if a = [] \<or> endswith a ''/'' then a @ b
      else a @ ''/'' @ b)"

text \<open>\<^verbatim>\<open>str(n)\<close> for a non-negative integer, as the f-strings format it.\<close>

definition digit_char :: "nat \<Rightarrow> char" where
  "digit_char d = ''0123456789'' ! d"

fun str_nat :: "nat \<Rightarrow> string" where
  "str_nat n =
     (if n < 10 then [digit_char n]
      else str_nat (n div 10) @ [digit_char (n mod 10)])"

declare str_nat.simps [simp del]

text \<open>\<^verbatim>\<open>sep.join(xs)\<close>.\<close>

fun str_join :: "string \<Rightarrow> string list \<Rightarrow> string" where
  "str_join sep [] = []"
| "str_join sep [x] = x"
| "str_join sep (x # y # ys) = x @ sep @ str_join sep (y # ys)"

section \<open>Message texts\<close>

text \<open>
  The literal parts of the source's f-strings, as their UTF-8 bytes. The proofs never look
  inside them, except for the first byte of the three error prefixes.
\<close>

text \<open>Source line 30: the annotation folder does not exist.\<close>

definition txt_annDir_missing :: string where
  "txt_annDir_missing =
    [CHR 0xE6, CHR 0xA0, CHR 0x87, CHR 0xE7, CHR 0xAD, CHR 0xBE, CHR 0x28, CHR 0x41,
     CHR 0x6E, CHR 0x6E, CHR 0x6F, CHR 0x74, CHR 0x61, CHR 0x74, CHR 0x69, CHR 0x6F,
     CHR 0x6E, CHR 0x73, CHR 0x29, CHR 0xE6, CHR 0x96, CHR 0x87, CHR 0xE4, CHR 0xBB,
     CHR 0xB6, CHR 0xE5, CHR 0xA4, CHR 0xB9, CHR 0xE4, CHR 0xB8, CHR 0x8D, CHR 0xE5,
     CHR 0xAD, CHR 0x98, CHR 0xE5, CHR 0x9C, CHR 0xA8, CHR 0xEF, CHR 0xBC, CHR 0x9A]"

text \<open>Source line 32: the image folder does not exist.\<close>

definition txt_imgDir_missing :: string where
  "txt_imgDir_missing =
    [CHR 0xE5, CHR 0x9B, CHR 0xBE, CHR 0xE7, CHR 0x89, CHR 0x87, CHR 0x28, CHR 0x4A,
     CHR 0x50, CHR 0x45, CHR 0x47, CHR 0x49, CHR 0x6D, CHR 0x61, CHR 0x67, CHR 0x65,
     CHR 0x73, CHR 0x29, CHR 0xE6, CHR 0x96, CHR 0x87, CHR 0xE4, CHR 0xBB, CHR 0xB6,
     CHR 0xE5, CHR 0xA4, CHR 0xB9, CHR 0xE4, CHR 0xB8, CHR 0x8D, CHR 0xE5, CHR 0xAD,
     CHR 0x98, CHR 0xE5, CHR 0x9C, CHR 0xA8, CHR 0xEF, CHR 0xBC, CHR 0x9A]"

text \<open>Source line 41: number of annotation files (.\<close>

definition txt_count_a :: string where
  "txt_count_a =
    [CHR 0xE6, CHR 0xA0, CHR 0x87, CHR 0xE7, CHR 0xAD, CHR 0xBE, CHR 0xE6, CHR 0x96,
     CHR 0x87, CHR 0xE4, CHR 0xBB, CHR 0xB6, CHR 0xE6, CHR 0x95, CHR 0xB0, CHR 0xE9,
     CHR 0x87, CHR 0x8F, CHR 0x28]"

text \<open>Source line 41: ) and number of image files (.\<close>

definition txt_count_b :: string where
  "txt_count_b =
    [CHR 0x29, CHR 0xE4, CHR 0xB8, CHR 0x8E, CHR 0xE5, CHR 0x9B, CHR 0xBE, CHR 0xE7,
     CHR 0x89, CHR 0x87, CHR 0xE6, CHR 0x96, CHR 0x87, CHR 0xE4, CHR 0xBB, CHR 0xB6,
     CHR 0xE6, CHR 0x95, CHR 0xB0, CHR 0xE9, CHR 0x87, CHR 0x8F, CHR 0x28]"

text \<open>Source line 41: ) differ!.\<close>

definition txt_count_c :: string where
  "txt_count_c =
    [CHR 0x29, CHR 0xE4, CHR 0xB8, CHR 0x8D, CHR 0xE4, CHR 0xB8, CHR 0x80, CHR 0xE8,
     CHR 0x87, CHR 0xB4, CHR 0xEF, CHR 0xBC, CHR 0x81]"

text \<open>Source line 47: found in total.\<close>

definition txt_found :: string where
  "txt_found =
    [CHR 0xE5, CHR 0x85, CHR 0xB1, CHR 0xE6, CHR 0x89, CHR 0xBE, CHR 0xE5, CHR 0x88,
     CHR 0xB0, CHR 0x20]"

text \<open>Source lines 47 and 103: pairs of files.\<close>

definition txt_pairs :: string where
  "txt_pairs =
    [CHR 0x20, CHR 0xE5, CHR 0xAF, CHR 0xB9, CHR 0xE6, CHR 0x96, CHR 0x87, CHR 0xE4,
     CHR 0xBB, CHR 0xB6]"

text \<open>Source line 74: updated the content of annotation file.\<close>

definition txt_updated :: string where
  "txt_updated =
    [CHR 0xE6, CHR 0x9B, CHR 0xB4, CHR 0xE6, CHR 0x96, CHR 0xB0, CHR 0xE6, CHR 0xA0,
     CHR 0x87, CHR 0xE7, CHR 0xAD, CHR 0xBE, CHR 0xE6, CHR 0x96, CHR 0x87, CHR 0xE4,
     CHR 0xBB, CHR 0xB6, CHR 0xE5, CHR 0x86, CHR 0x85, CHR 0xE5, CHR 0xAE, CHR 0xB9,
     CHR 0xEF, CHR 0xBC, CHR 0x9A]"

text \<open>Source line 76: updating annotation.\<close>

definition txt_update_err :: string where
  "txt_update_err =
    [CHR 0xE6, CHR 0x9B, CHR 0xB4, CHR 0xE6, CHR 0x96, CHR 0xB0, CHR 0xE6, CHR 0xA0,
     CHR 0x87, CHR 0xE7, CHR 0xAD, CHR 0xBE, CHR 0x20]"

text \<open>Source lines 76, 89, 101: failed with.\<close>

definition txt_err :: string where
  "txt_err =
    [CHR 0x20, CHR 0xE6, CHR 0x97, CHR 0xB6, CHR 0xE5, CHR 0x87, CHR 0xBA, CHR 0xE9,
     CHR 0x94, CHR 0x99, CHR 0xEF, CHR 0xBC, CHR 0x9A]"

text \<open>Source line 87: renamed the annotation file to.\<close>

definition txt_renamed_ann :: string where
  "txt_renamed_ann =
    [CHR 0xE9, CHR 0x87, CHR 0x8D, CHR 0xE5, CHR 0x91, CHR 0xBD, CHR 0xE5, CHR 0x90,
     CHR 0x8D, CHR 0xE6, CHR 0xA0, CHR 0x87, CHR 0xE7, CHR 0xAD, CHR 0xBE, CHR 0xE6,
     CHR 0x96, CHR 0x87, CHR 0xE4, CHR 0xBB, CHR 0xB6, CHR 0xE4, CHR 0xB8, CHR 0xBA,
     CHR 0xEF, CHR 0xBC, CHR 0x9A]"

text \<open>Source line 89: renaming annotation.\<close>

definition txt_rename_ann_err :: string where
  "txt_rename_ann_err =
    [CHR 0xE9, CHR 0x87, CHR 0x8D, CHR 0xE5, CHR 0x91, CHR 0xBD, CHR 0xE5, CHR 0x90,
     CHR 0x8D, CHR 0xE6, CHR 0xA0, CHR 0x87, CHR 0xE7, CHR 0xAD, CHR 0xBE, CHR 0x20]"

text \<open>Source line 99: renamed the image file to.\<close>

definition txt_renamed_img :: string where
  "txt_renamed_img =
    [CHR 0xE9, CHR 0x87, CHR 0x8D, CHR 0xE5, CHR 0x91, CHR 0xBD, CHR 0xE5, CHR 0x90,
     CHR 0x8D, CHR 0xE5, CHR 0x9B, CHR 0xBE, CHR 0xE7, CHR 0x89, CHR 0x87, CHR 0xE6,
     CHR 0x96, CHR 0x87, CHR 0xE4, CHR 0xBB, CHR 0xB6, CHR 0xE4, CHR 0xB8, CHR 0xBA,
     CHR 0xEF, CHR 0xBC, CHR 0x9A]"

text \<open>Source line 101: renaming image.\<close>

definition txt_rename_img_err :: string where
  "txt_rename_img_err =
    [CHR 0xE9, CHR 0x87, CHR 0x8D, CHR 0xE5, CHR 0x91, CHR 0xBD, CHR 0xE5, CHR 0x90,
     CHR 0x8D, CHR 0xE5, CHR 0x9B, CHR 0xBE, CHR 0xE7, CHR 0x89, CHR 0x87, CHR 0x20]"

text \<open>Source line 103: conversion finished, processed in total.\<close>

definition txt_done :: string where
  "txt_done =
    [CHR 0xE6, CHR 0x96, CHR 0x87, CHR 0xE4, CHR 0xBB, CHR 0xB6, CHR 0xE7, CHR 0xBB,
     CHR 0x9F, CHR 0xE4, CHR 0xB8, CHR 0x80, CHR 0xE8, CHR 0xBD, CHR 0xAC, CHR 0xE6,
     CHR 0x8D, CHR 0xA2, CHR 0xE5, CHR 0xAE, CHR 0x8C, CHR 0xE6, CHR 0x88, CHR 0x90,
     CHR 0xEF, CHR 0xBC, CHR 0x8C, CHR 0xE5, CHR 0x85, CHR 0xB1, CHR 0xE5, CHR 0xA4,
     CHR 0x84, CHR 0xE7, CHR 0x90, CHR 0x86, CHR 0x20]"

text \<open>Source line 105: newline, some of the errors, newline.\<close>

definition txt_some_errors :: string where
  "txt_some_errors =
    [CHR 0x0A, CHR 0xE9, CHR 0x83, CHR 0xA8, CHR 0xE5, CHR 0x88, CHR 0x86, CHR 0xE9,
     CHR 0x94, CHR 0x99, CHR 0xE8, CHR 0xAF, CHR 0xAF, CHR 0xEF, CHR 0xBC, CHR 0x9A,
     CHR 0x0A]"

text \<open>Source line 107: newline, ... and another.\<close>

definition txt_more_a :: string where
  "txt_more_a =
    [CHR 0x0A, CHR 0xE2, CHR 0x80, CHR 0xA6, CHR 0xE2, CHR 0x80, CHR 0xA6, CHR 0xE8,
     CHR 0xBF, CHR 0x98, CHR 0xE6, CHR 0x9C, CHR 0x89, CHR 0x20]"

text \<open>Source line 107: errors.\<close>

definition txt_more_b :: string where
  "txt_more_b =
    [CHR 0x20, CHR 0xE4, CHR 0xB8, CHR 0xAA, CHR 0xE9, CHR 0x94, CHR 0x99, CHR 0xE8,
     CHR 0xAF, CHR 0xAF]"

text \<open>Source line 110: fatal error.\<close>

definition txt_fatal :: string where
  "txt_fatal =
    [CHR 0xE4, CHR 0xB8, CHR 0xA5, CHR 0xE9, CHR 0x87, CHR 0x8D, CHR 0xE9, CHR 0x94,
     CHR 0x99, CHR 0xE8, CHR 0xAF, CHR 0xAF, CHR 0xEF, CHR 0xBC, CHR 0x9A]"

section \<open>The two extension filters\<close>

definition allowedImgExts :: "string set" where
  "allowedImgExts = {''.jpg'', ''.jpeg'', ''.png''}"

text \<open>The condition of the list comprehension of \<^verbatim>\<open>annList\<close> (source line 36).\<close>

definition is_ann :: "string \<Rightarrow> bool" where
  "is_ann f = endswith (lower f) ''.xml''"

text \<open>The condition of the list comprehension of \<^verbatim>\<open>imgList\<close> (source line 39).\<close>

definition is_img :: "string \<Rightarrow> bool" where
  "is_img f = (lower (snd (splitext f)) \<in> allowedImgExts)"

section \<open>Annotation records\<close>

text \<open>
  An \<^verbatim>\<open>xml.etree.ElementTree.Element\<close>: tag, attributes, text, children in document
  order, tail.
\<close>

datatype element =
  Element (tag: string) (attrib: "(string \<times> string) list") (etext: "string option")
    (children: "element list") (tail: "string option")

text \<open>\<^verbatim>\<open>root.find(name)\<close> for a plain tag name: the first direct child with that tag.\<close>

definition find_elem :: "element \<Rightarrow> string \<Rightarrow> element option" where
  "find_elem root name = List.find (\<lambda>c. tag c = name) (children root)"

text \<open>\<^verbatim>\<open>ET.SubElement(root, name)\<close>: a new empty child, appended.\<close>

definition SubElement :: "element \<Rightarrow> string \<Rightarrow> element" where
  "SubElement root name =
     Element (tag root) (attrib root) (etext root)
       (children root @ [Element name [] None [] None]) (tail root)"

text \<open>
  The assignment \<^verbatim>\<open>elem.text = t\<close> where \<^verbatim>\<open>elem\<close> is the object that
  \<^verbatim>\<open>root.find(name)\<close> returned: it changes the first child with that tag inside the tree.
\<close>

fun assign_text :: "string \<Rightarrow> string \<Rightarrow> element list \<Rightarrow> element list" where
  "assign_text name t [] = []"
| "assign_text name t (c # cs) =
     (if tag c = name
      then Element (tag c) (attrib c) (Some t) (children c) (tail c) # cs
      else c # assign_text name t cs)"

text \<open>
  Source lines 61 to 64, and 66 to 69 with the other tag: find the child, create it when
  \<^verbatim>\<open>find\<close> returned \<^verbatim>\<open>None\<close>, set its text.
\<close>

definition set_field :: "string \<Rightarrow> string \<Rightarrow> element \<Rightarrow> element" where
  "set_field name t root =
     (let root1 = (case find_elem root name of None \<Rightarrow> SubElement root name | Some _ \<Rightarrow> root)
      in Element (tag root1) (attrib root1) (etext root1)
           (assign_text name t (children root1)) (tail root1))"

section \<open>The file system\<close>

text \<open>
  A file holds either bytes that \<^verbatim>\<open>ET.parse\<close> accepts, given by the tree they parse to
  (\<^verbatim>\<open>tree.write\<close> followed by \<^verbatim>\<open>ET.parse\<close> gives the tree back), or bytes that it
  rejects, given with the text of the \<^verbatim>\<open>ParseError\<close>. A directory entry is a file or
  a folder, whose inside the program never looks at. A directory is the list of its entries
  in the order \<^verbatim>\<open>os.listdir\<close> reports them; the file system maps the path of a directory
  to it, \<open>None\<close> where \<^verbatim>\<open>os.path.isdir\<close> is false. The entry \<open>n\<close> of directory \<open>d\<close>
  is what the source addresses as \<^verbatim>\<open>os.path.join(d, n)\<close>.

  The model is a case-sensitive POSIX file system on which every present file can be read
  and written; a call fails only where a file is missing, a folder is in the way, or the
  bytes do not parse. Neither input directory lies inside a folder entry of the other.
\<close>

datatype content = Xml element | NotXml string string

datatype node = File content | Folder

type_synonym directory = "(string \<times> node) list"

type_synonym filesystem = "string \<Rightarrow> directory option"

text \<open>An exception, with the text that \<^verbatim>\<open>str(e)\<close> gives.\<close>

datatype exn =
  FileNotFoundError string
  | IsADirectoryError string
  | OSError string
  | ParseError string
  | ValueError string

fun str_exn :: "exn \<Rightarrow> string" where
  "str_exn (FileNotFoundError m) = m"
| "str_exn (IsADirectoryError m) = m"
| "str_exn (OSError m) = m"
| "str_exn (ParseError m) = m"
| "str_exn (ValueError m) = m"

text \<open>
  \<^verbatim>\<open>repr\<close> of a path, as the texts of the operating-system errors show it (for a path
  that needs no escaping).
\<close>

definition py_repr :: "string \<Rightarrow> string" where
  "py_repr s = [CHR 0x27] @ s @ [CHR 0x27]"

definition ENOENT :: "string \<Rightarrow> exn" where
  "ENOENT path = FileNotFoundError (''[Errno 2] No such file or directory: '' @ py_repr path)"

definition ENOENT2 :: "string \<Rightarrow> string \<Rightarrow> exn" where
  "ENOENT2 src dst =
     FileNotFoundError
       (''[Errno 2] No such file or directory: '' @ py_repr src @ '' -> '' @ py_repr dst)"

definition EISDIR :: "string \<Rightarrow> exn" where
  "EISDIR path = IsADirectoryError (''[Errno 21] Is a directory: '' @ py_repr path)"

definition entry :: "filesystem \<Rightarrow> string \<Rightarrow> string \<Rightarrow> node option" where
  "entry fs d n = (case fs d of None \<Rightarrow> None | Some es \<Rightarrow> map_of es n)"

definition os_path_isdir :: "filesystem \<Rightarrow> string \<Rightarrow> bool" where
  "os_path_isdir fs d = (fs d \<noteq> None)"

definition os_listdir :: "filesystem \<Rightarrow> string \<Rightarrow> exn + string list" where
  "os_listdir fs d = (case fs d of None \<Rightarrow> Inl (ENOENT d) | Some es \<Rightarrow> Inr (map fst es))"

definition os_path_exists :: "filesystem \<Rightarrow> string \<Rightarrow> string \<Rightarrow> bool" where
  "os_path_exists fs d n = (entry fs d n \<noteq> None)"

text \<open>\<^verbatim>\<open>os.remove\<close>: deletes a file, fails on a folder and on a missing path.\<close>

definition os_remove :: "filesystem \<Rightarrow> string \<Rightarrow> string \<Rightarrow> exn + filesystem" where
  "os_remove fs d n =
     (case fs d of
        None \<Rightarrow> Inl (ENOENT (os_path_join d n))
      | Some es \<Rightarrow>
          (case map_of es n of
             None \<Rightarrow> Inl (ENOENT (os_path_join d n))
           | Some Folder \<Rightarrow> Inl (EISDIR (os_path_join d n))
           | Some (File c) \<Rightarrow> Inr (fs(d \<mapsto> AList.delete n es))))"

text \<open>
  \<^verbatim>\<open>os.rename\<close> inside one directory: fails when the source is missing; a file replaces
  an existing file; a folder at either end of a rename onto an existing name is refused
  (the program renames only onto a name that it has just removed or found absent).
\<close>

definition os_rename :: "filesystem \<Rightarrow> string \<Rightarrow> string \<Rightarrow> string \<Rightarrow> exn + filesystem" where
  "os_rename fs d src dst =
     (case fs d of
        None \<Rightarrow> Inl (ENOENT2 (os_path_join d src) (os_path_join d dst))
      | Some es \<Rightarrow>
          (case map_of es src of
             None \<Rightarrow> Inl (ENOENT2 (os_path_join d src) (os_path_join d dst))
           | Some nd \<Rightarrow>
               if src = dst then Inr fs
               else (case (nd, map_of es dst) of
                       (_, None) \<Rightarrow> Inr (fs(d \<mapsto> AList.delete src es @ [(dst, nd)]))
                     | (File c, Some (File c')) \<Rightarrow>
                         Inr (fs(d \<mapsto> AList.delete src (AList.delete dst es) @ [(dst, nd)]))
                     | (File c, Some Folder) \<Rightarrow> Inl (EISDIR (os_path_join d dst))
                     | (Folder, Some _) \<Rightarrow>
                         Inl (OSError (''[Errno 39] Directory not empty: ''
                                @ py_repr (os_path_join d src) @ '' -> ''
                                @ py_repr (os_path_join d dst))))))"

text \<open>\<^verbatim>\<open>ET.parse(path).getroot()\<close>.\<close>

definition ET_parse :: "filesystem \<Rightarrow> string \<Rightarrow> string \<Rightarrow> exn + element" where
  "ET_parse fs d n =
     (case entry fs d n of
        None \<Rightarrow> Inl (ENOENT (os_path_join d n))
      | Some Folder \<Rightarrow> Inl (EISDIR (os_path_join d n))
      | Some (File (NotXml bytes msg)) \<Rightarrow> Inl (ParseError msg)
      | Some (File (Xml root)) \<Rightarrow> Inr root)"

text \<open>
  \<^verbatim>\<open>tree.write(path, encoding='utf-8', xml_declaration=True)\<close>: opens the path for
  writing, which creates the file or replaces its content.
\<close>

definition tree_write :: "filesystem \<Rightarrow> string \<Rightarrow> string \<Rightarrow> element \<Rightarrow> exn + filesystem" where
  "tree_write fs d n root =
     (case fs d of
        None \<Rightarrow> Inl (ENOENT (os_path_join d n))
      | Some es \<Rightarrow>
          (case map_of es n of
             Some Folder \<Rightarrow> Inl (EISDIR (os_path_join d n))
           | _ \<Rightarrow> Inr (fs(d \<mapsto> AList.update n (File (Xml root)) es))))"

section \<open>The worker thread\<close>

text \<open>The three signals of \<^verbatim>\<open>FileProcessingThread\<close>, as the events a run emits.\<close>

datatype event =
  progressUpdated nat nat
  | logOutput string
  | processingFinished bool string

text \<open>
  What \<^verbatim>\<open>run\<close> changes: the file system, its local variables \<^verbatim>\<open>errorList\<close> and
  \<^verbatim>\<open>currentProgress\<close>, and the signals emitted so far, oldest first.
\<close>

record state =
  files :: filesystem
  errorList :: "string list"
  currentProgress :: nat
  signals :: "event list"

text \<open>
  The body of a \<^verbatim>\<open>try\<close> block returns \<open>Inr\<close> of the state it ends in, or \<open>Inl\<close> of the
  exception raised together with the state at that moment: what the block did before it
  raised stays done.
\<close>

type_synonym attempt = "(exn \<times> state) + state"

text \<open>
  Step 1, source lines 58 to 74: parse the annotation file, set \<^verbatim>\<open>filename\<close> and
  \<^verbatim>\<open>path\<close>, write the tree over the same file, count the step.
\<close>

definition try_update ::
  "string \<Rightarrow> string \<Rightarrow> nat \<Rightarrow> nat \<Rightarrow> string \<Rightarrow> string \<Rightarrow> state \<Rightarrow> attempt" where
  "try_update annDir imgDir totalSteps idx annFile img_ext st =
     (case ET_parse (files st) annDir annFile of
        Inl e \<Rightarrow> Inl (e, st)
      | Inr root \<Rightarrow>
          (let root1 = set_field ''filename'' (str_nat idx @ img_ext) root;
               root2 = set_field ''path'' (os_path_join imgDir (str_nat idx @ img_ext)) root1
           in case tree_write (files st) annDir annFile root2 of
                Inl e \<Rightarrow> Inl (e, st)
              | Inr fs' \<Rightarrow>
                  Inr (st\<lparr>files := fs',
                          currentProgress := currentProgress st + 1,
                          signals := signals st @
                            [progressUpdated (currentProgress st + 1) totalSteps,
                             logOutput (txt_updated @ annFile)]\<rparr>)))"

text \<open>
  Source lines 82 to 84, and 94 to 96: remove whatever is at the new name, then rename.
  When the rename raises, the removal has already happened.
\<close>

definition remove_and_rename ::
  "filesystem \<Rightarrow> string \<Rightarrow> string \<Rightarrow> string \<Rightarrow> (exn \<times> filesystem) + filesystem" where
  "remove_and_rename fs d src dst =
     (case (if os_path_exists fs d dst then os_remove fs d dst else Inr fs) of
        Inl e \<Rightarrow> Inl (e, fs)
      | Inr fs1 \<Rightarrow>
          (case os_rename fs1 d src dst of
             Inl e \<Rightarrow> Inl (e, fs1)
           | Inr fs2 \<Rightarrow> Inr fs2))"

text \<open>Step 2, source lines 81 to 87.\<close>

definition try_rename_ann :: "string \<Rightarrow> nat \<Rightarrow> nat \<Rightarrow> string \<Rightarrow> state \<Rightarrow> attempt" where
  "try_rename_ann annDir totalSteps idx annFile st =
     (case remove_and_rename (files st) annDir annFile (str_nat idx @ ''.xml'') of
        Inl (e, fs') \<Rightarrow> Inl (e, st\<lparr>files := fs'\<rparr>)
      | Inr fs' \<Rightarrow>
          Inr (st\<lparr>files := fs',
                  currentProgress := currentProgress st + 1,
                  signals := signals st @
                    [progressUpdated (currentProgress st + 1) totalSteps,
                     logOutput (txt_renamed_ann @ str_nat idx @ ''.xml'')]\<rparr>))"

text \<open>Step 3, source lines 93 to 99.\<close>

definition try_rename_img ::
  "string \<Rightarrow> nat \<Rightarrow> nat \<Rightarrow> string \<Rightarrow> string \<Rightarrow> state \<Rightarrow> attempt" where
  "try_rename_img imgDir totalSteps idx imgFile img_ext st =
     (case remove_and_rename (files st) imgDir imgFile (str_nat idx @ img_ext) of
        Inl (e, fs') \<Rightarrow> Inl (e, st\<lparr>files := fs'\<rparr>)
      | Inr fs' \<Rightarrow>
          Inr (st\<lparr>files := fs',
                  currentProgress := currentProgress st + 1,
                  signals := signals st @
                    [progressUpdated (currentProgress st + 1) totalSteps,
                     logOutput (txt_renamed_img @ str_nat idx @ img_ext)]\<rparr>))"

text \<open>
  An \<^verbatim>\<open>except Exception as e\<close> clause of the loop: append one line to
  \<^verbatim>\<open>errorList\<close>, made of a prefix, the original file name and \<^verbatim>\<open>str(e)\<close>.
\<close>

definition record_error :: "string \<Rightarrow> string \<Rightarrow> exn \<Rightarrow> state \<Rightarrow> state" where
  "record_error pre name e st =
     st\<lparr>errorList := errorList st @ [pre @ name @ txt_err @ str_exn e]\<rparr>"

text \<open>
  One iteration of the loop, source lines 49 to 101. The \<^verbatim>\<open>continue\<close> of line 77 skips
  steps 2 and 3; the handlers of steps 2 and 3 fall through.
\<close>

definition process_pair ::
  "string \<Rightarrow> string \<Rightarrow> nat \<Rightarrow> nat \<Rightarrow> string \<Rightarrow> string \<Rightarrow> state \<Rightarrow> state" where
  "process_pair annDir imgDir totalSteps idx annFile imgFile st =
     (let img_ext = lower (snd (splitext imgFile)) in
      case try_update annDir imgDir totalSteps idx annFile img_ext st of
        Inl (e, st') \<Rightarrow> record_error txt_update_err annFile e st'
      | Inr st1 \<Rightarrow>
          (let st2 = (case try_rename_ann annDir totalSteps idx annFile st1 of
                        Inl (e, st') \<Rightarrow> record_error txt_rename_ann_err annFile e st'
                      | Inr st' \<Rightarrow> st');
               st3 = (case try_rename_img imgDir totalSteps idx imgFile img_ext st2 of
                        Inl (e, st') \<Rightarrow> record_error txt_rename_img_err imgFile e st'
                      | Inr st' \<Rightarrow> st')
           in st3))"

text \<open>\<^verbatim>\<open>for idx, (annFile, imgFile) in enumerate(pairs, 1)\<close>, from index \<open>idx\<close> on.\<close>

fun process_pairs ::
  "string \<Rightarrow> string \<Rightarrow> nat \<Rightarrow> nat \<Rightarrow> (string \<times> string) list \<Rightarrow> state \<Rightarrow> state" where
  "process_pairs annDir imgDir totalSteps idx [] st = st"
| "process_pairs annDir imgDir totalSteps idx ((annFile, imgFile) # ps) st =
     process_pairs annDir imgDir totalSteps (idx + 1) ps
       (process_pair annDir imgDir totalSteps idx annFile imgFile st)"

text \<open>Source lines 103 to 107: the message of the final signal.\<close>

definition final_message :: "nat \<Rightarrow> string list \<Rightarrow> string" where
  "final_message n errs =
     (let msg = txt_done @ str_nat n @ txt_pairs in
      if errs \<noteq> [] then
        (let msg1 = msg @ txt_some_errors @ str_join [CHR 0x0A] (take 5 errs) in
         if length errs > 5
         then msg1 @ txt_more_a @ str_nat (length errs - 5) @ txt_more_b
         else msg1)
      else msg)"

text \<open>Source lines 35 to 39: the two sorted candidate lists.\<close>

definition annList_of :: "string list \<Rightarrow> string list" where
  "annList_of names = sort (filter is_ann names)"

definition imgList_of :: "string list \<Rightarrow> string list" where
  "imgList_of names = sort (filter is_img names)"

text \<open>The body of the outer \<^verbatim>\<open>try\<close>, source lines 28 to 108.\<close>

definition run_try :: "string \<Rightarrow> string \<Rightarrow> state \<Rightarrow> attempt" where
  "run_try annDir imgDir st =
     (if \<not> os_path_isdir (files st) annDir
      then Inl (FileNotFoundError (txt_annDir_missing @ annDir), st)
      else if \<not> os_path_isdir (files st) imgDir
      then Inl (FileNotFoundError (txt_imgDir_missing @ imgDir), st)
      else
        (case os_listdir (files st) annDir of
           Inl e \<Rightarrow> Inl (e, st)
         | Inr annNames \<Rightarrow>
             (case os_listdir (files st) imgDir of
                Inl e \<Rightarrow> Inl (e, st)
              | Inr imgNames \<Rightarrow>
                  (let annList = annList_of annNames;
                       imgList = imgList_of imgNames
                   in if length annList \<noteq> length imgList
                      then Inl (ValueError (txt_count_a @ str_nat (length annList)
                                  @ txt_count_b @ str_nat (length imgList) @ txt_count_c), st)
                      else
                        (let pairs = zip annList imgList;
                             totalSteps = length pairs * 3;
                             st1 = st\<lparr>currentProgress := 0,
                                      signals := signals st @
                                        [progressUpdated 0 totalSteps,
                                         logOutput (txt_found @ str_nat (length pairs)
                                                    @ txt_pairs)]\<rparr>;
                             st2 = process_pairs annDir imgDir totalSteps 1 pairs st1;
                             msg = final_message (length pairs) (errorList st2)
                         in Inr (st2\<lparr>signals := signals st2 @
                                   [processingFinished (errorList st2 = []) msg]\<rparr>))))))"

text \<open>
  \<^verbatim>\<open>run\<close>, from a file system: \<^verbatim>\<open>errorList = []\<close>, the outer \<^verbatim>\<open>try\<close>, and its
  handler (source lines 109 and 110). The arguments are the normalised paths that
  \<^verbatim>\<open>__init__\<close> stored.
\<close>

definition initial :: "filesystem \<Rightarrow> state" where
  "initial fs0 = \<lparr>files = fs0, errorList = [], currentProgress = 0, signals = []\<rparr>"

definition run :: "string \<Rightarrow> string \<Rightarrow> filesystem \<Rightarrow> state" where
  "run annDir imgDir fs0 =
     (case run_try annDir imgDir (initial fs0) of
        Inl (e, st) \<Rightarrow>
          st\<lparr>signals := signals st @ [processingFinished False (txt_fatal @ str_exn e)]\<rparr>
      | Inr st \<Rightarrow> st)"

section \<open>Example datasets\<close>

text \<open>An annotation record with a \<^verbatim>\<open>filename\<close> field and no \<^verbatim>\<open>path\<close> field.\<close>

definition example_record :: element where
  "example_record =
     Element ''annotation'' [] None [Element ''filename'' [] (Some ''old.jpg'') [] None] None"

definition jpeg_bytes :: content where
  "jpeg_bytes = NotXml ''JFIF'' ''syntax error: line 1, column 0''"

text \<open>Three annotation files and two images.\<close>

definition fs_mismatch :: filesystem where
  "fs_mismatch =
     (\<lambda>d. None)
       (''/d/ann'' \<mapsto> [(''a.xml'', File (Xml example_record)),
                         (''b.xml'', File (Xml example_record)),
                         (''c.xml'', File (Xml example_record))],
        ''/d/img'' \<mapsto> [(''a.jpg'', File jpeg_bytes), (''b.jpg'', File jpeg_bytes)])"

text \<open>
  Two pairs; the annotation file of the first pair in sorted order, \<^verbatim>\<open>a.XML\<close>, does not
  parse. The folder \<^verbatim>\<open>readme.txt\<close> passes neither filter.
\<close>

definition fs_mixed :: filesystem where
  "fs_mixed =
     (\<lambda>d. None)
       (''/d/ann'' \<mapsto> [(''b.xml'', File (Xml example_record)),
                         (''a.XML'', File (NotXml ''<a'' ''unclosed token: line 1, column 0'')),
                         (''readme.txt'', Folder)],
        ''/d/img'' \<mapsto> [(''x.JPG'', File jpeg_bytes), (''y.png'', File jpeg_bytes)])"

text \<open>One pair; the image has an upper-case extension.\<close>

definition fs_upper :: filesystem where
  "fs_upper =
     (\<lambda>d. None)
       (''/d/ann'' \<mapsto> [(''a.xml'', File (Xml example_record))],
        ''/d/img'' \<mapsto> [(''photo.JPG'', File jpeg_bytes)])"

text \<open>One pair whose annotation file already bears the name it is to get.\<close>

definition fs_named :: filesystem where
  "fs_named =
     (\<lambda>d. None)
       (''/d/ann'' \<mapsto> [(''1.xml'', File (Xml example_record))],
        ''/d/img'' \<mapsto> [(''a.jpg'', File jpeg_bytes)])"

text \<open>
  A normalised dataset of one pair, as a run leaves it: \<^verbatim>\<open>1.xml\<close> with both fields set,
  and \<^verbatim>\<open>1.jpg\<close>.
\<close>

definition normal_record :: element where
  "normal_record =
     Element ''annotation'' [] None
       [Element ''filename'' [] (Some ''1.jpg'') [] None,
        Element ''path'' [] (Some ''/d/img/1.jpg'') [] None] None"

definition fs_normal :: filesystem where
  "fs_normal =
     (\<lambda>d. None)
       (''/d/ann'' \<mapsto> [(''1.xml'', File (Xml normal_record))],
        ''/d/img'' \<mapsto> [(''1.jpg'', File jpeg_bytes)])"

section \<open>Reading a run\<close>

text \<open>
  The progress events among the signals, in the order they were emitted, each as the pair
  of its completed count and its total.
\<close>

fun progress_events :: "event list \<Rightarrow> (nat \<times> nat) list" where
  "progress_events [] = []"
| "progress_events (progressUpdated c t # es) = (c, t) # progress_events es"
| "progress_events (logOutput l # es) = progress_events es"
| "progress_events (processingFinished b m # es) = progress_events es"

text \<open>
  An entry of \<^verbatim>\<open>errorList\<close> that the handler of step 1 wrote (source line 76): such an
  entry stands for three sub-steps that did not complete, the failed step 1 and the two
  skipped renames; every other entry stands for one failed rename.
\<close>

definition is_update_error :: "string \<Rightarrow> bool" where
  "is_update_error e = startswith e txt_update_err"

text \<open>
  The bookkeeping between two states of a run with total \<open>T\<close>: the counter went up by
  \<open>k\<close>, the errors \<open>errs\<close> were appended, and the signals emitted in between hold one
  progress event for each value the counter took, in order, and no outcome.
\<close>

definition advanced :: "nat \<Rightarrow> nat \<Rightarrow> string list \<Rightarrow> state \<Rightarrow> state \<Rightarrow> bool" where
  "advanced T k errs st st' \<longleftrightarrow>
     currentProgress st' = currentProgress st + k
     \<and> errorList st' = errorList st @ errs
     \<and> (\<exists>evs. signals st' = signals st @ evs
          \<and> progress_events evs =
              map (\<lambda>c. (c, T)) [Suc (currentProgress st) ..< Suc (currentProgress st + k)]
          \<and> (\<forall>b m. processingFinished b m \<notin> set evs))"

section \<open>Properties of the extension filters\<close>

lemma lower_char_dot: "lower_char c = CHR ''.'' \<longleftrightarrow> c = CHR ''.''"
  by (auto simp: lower_char_def split: if_splits)

lemma rfind_absent: "c \<notin> set s \<Longrightarrow> rfind s c = -1"
  by (induction s) (auto simp: Let_def)

lemma splitext_bare:
  assumes "CHR ''.'' \<notin> set s"
  shows "splitext (CHR ''.'' # s) = (CHR ''.'' # s, [])"
  using assms by (simp add: splitext_def Let_def rfind_absent)

lemma set_lower_dot: "CHR ''.'' \<in> set (lower s) \<longleftrightarrow> CHR ''.'' \<in> set s"
  unfolding lower_def set_map image_iff by (metis lower_char_dot)

lemma bare_image_ext_not_img:
  assumes "lower g \<in> allowedImgExts"
  shows "\<not> is_img g"
proof -
  from assms obtain s where g: "g = CHR ''.'' # s" and s: "CHR ''.'' \<notin> set (lower s)"
    by (cases g) (auto simp: allowedImgExts_def lower_def lower_char_dot)
  then have "splitext g = (g, [])"
    using splitext_bare set_lower_dot by simp
  then show ?thesis
    by (simp add: is_img_def lower_def allowedImgExts_def)
qed

lemma length_annList_of: "length (annList_of names) = length (filter is_ann names)"
  by (simp add: annList_of_def)

lemma length_imgList_of: "length (imgList_of names) = length (filter is_img names)"
  by (simp add: imgList_of_def)

text \<open>
  Claim C9. A name that is \<^verbatim>\<open>.xml\<close> in any letter case passes the annotation filter,
  which tests the end of the lower-cased name; a name that is \<^verbatim>\<open>.jpg\<close>, \<^verbatim>\<open>.jpeg\<close> or
  \<^verbatim>\<open>.png\<close> (here also in any letter case) fails the image filter, because
  \<^verbatim>\<open>splitext\<close> gives it the empty extension. So the first adds one to the number of
  annotation candidates of a directory, and the second adds nothing to the number of image
  candidates.
\<close>

theorem dot_files_asymmetric:
  assumes "lower f = ''.xml''" and "lower g \<in> {''.jpg'', ''.jpeg'', ''.png''}"
  shows "is_ann f \<and> \<not> is_img g
    \<and> length (annList_of (f # names)) = length (annList_of names) + 1
    \<and> length (imgList_of (g # names')) = length (imgList_of names')"
proof -
  have a: "is_ann f"
    using assms(1) by (simp add: is_ann_def endswith_def)
  have b: "\<not> is_img g"
    using assms(2) bare_image_ext_not_img by (simp add: allowedImgExts_def)
  show ?thesis
    using a b by (simp add: length_annList_of length_imgList_of)
qed

theorem dot_files_asymmetric_witness:
  "is_ann ''.XmL'' \<and> \<not> is_img ''.jpeg''
    \<and> length (annList_of [''.XmL'', ''a.xml'']) = 2
    \<and> length (imgList_of [''.jpeg'', ''a.jpg'']) = 1"
proof -
  have 1: "lower ''.XmL'' = ''.xml''"
    by (simp add: lower_def lower_char_def)
  have 2: "lower ''.jpeg'' \<in> {''.jpg'', ''.jpeg'', ''.png''}"
    by (simp add: lower_def lower_char_def)
  have 3: "length (annList_of [''a.xml'']) = 1"
    by (simp add: length_annList_of is_ann_def endswith_def lower_def lower_char_def)
  have 4: "length (imgList_of [''a.jpg'']) = 1"
    by (simp add: length_imgList_of is_img_def splitext_def allowedImgExts_def lower_def
        lower_char_def)
  show ?thesis
    using dot_files_asymmetric [OF 1 2, of "[''a.xml'']" "[''a.jpg'']"] 3 4 by simp
qed

section \<open>Run-level outcomes\<close>

lemmas filter_eval =
  is_ann_def is_img_def endswith_def splitext_def allowedImgExts_def lower_def lower_char_def
  annList_of_def imgList_of_def

lemma str_nat_small:
  "str_nat 1 = ''1''" "str_nat 2 = ''2''" "str_nat 3 = ''3''" "str_nat 6 = ''6''"
  by (simp_all add: str_nat.simps digit_char_def)

lemma run_mismatch:
  assumes "fs annDir = Some ae" and "fs imgDir = Some ie"
    and "length (annList_of (map fst ae)) \<noteq> length (imgList_of (map fst ie))"
  shows "run annDir imgDir fs =
    (initial fs)\<lparr>signals := [processingFinished False
       (txt_fatal @ txt_count_a @ str_nat (length (annList_of (map fst ae))) @ txt_count_b
          @ str_nat (length (imgList_of (map fst ie))) @ txt_count_c)]\<rparr>"
  using assms by (simp add: run_def run_try_def os_path_isdir_def os_listdir_def initial_def)

lemma run_complete:
  assumes "fs annDir = Some ae" and "fs imgDir = Some ie"
    and "length (annList_of (map fst ae)) = length (imgList_of (map fst ie))"
  shows "run annDir imgDir fs =
    (let pairs = zip (annList_of (map fst ae)) (imgList_of (map fst ie));
         st2 = process_pairs annDir imgDir (length pairs * 3) 1 pairs
                ((initial fs)\<lparr>signals := [progressUpdated 0 (length pairs * 3),
                     logOutput (txt_found @ str_nat (length pairs) @ txt_pairs)]\<rparr>)
     in st2\<lparr>signals := signals st2 @
          [processingFinished (errorList st2 = [])
             (final_message (length pairs) (errorList st2))]\<rparr>)"
  using assms
  by (simp add: run_def run_try_def os_path_isdir_def os_listdir_def initial_def Let_def)

text \<open>
  Claim C2. When both directories exist and the two candidate lists differ in length, the
  run leaves the file system as it was, records no error, and emits one signal only: the
  failure whose message carries both counts. No progress or log signal comes before it, so
  no file was parsed, written, removed or renamed.
\<close>

theorem count_mismatch_aborts:
  assumes "fs annDir = Some ae" and "fs imgDir = Some ie"
    and "length (annList_of (map fst ae)) \<noteq> length (imgList_of (map fst ie))"
  shows "files (run annDir imgDir fs) = fs
    \<and> errorList (run annDir imgDir fs) = []
    \<and> signals (run annDir imgDir fs) =
        [processingFinished False
          (txt_fatal @ txt_count_a @ str_nat (length (annList_of (map fst ae))) @ txt_count_b
            @ str_nat (length (imgList_of (map fst ie))) @ txt_count_c)]"
  by (simp add: run_mismatch [OF assms] initial_def)

theorem count_mismatch_aborts_witness:
  "files (run ''/d/ann'' ''/d/img'' fs_mismatch) = fs_mismatch
    \<and> errorList (run ''/d/ann'' ''/d/img'' fs_mismatch) = []
    \<and> signals (run ''/d/ann'' ''/d/img'' fs_mismatch) =
        [processingFinished False
          (txt_fatal @ txt_count_a @ ''3'' @ txt_count_b @ ''2'' @ txt_count_c)]"
proof -
  let ?ae = "[(''a.xml'', File (Xml example_record)), (''b.xml'', File (Xml example_record)),
              (''c.xml'', File (Xml example_record))]"
  let ?ie = "[(''a.jpg'', File jpeg_bytes), (''b.jpg'', File jpeg_bytes)]"
  have 1: "fs_mismatch ''/d/ann'' = Some ?ae"
    by (simp add: fs_mismatch_def)
  have 2: "fs_mismatch ''/d/img'' = Some ?ie"
    by (simp add: fs_mismatch_def)
  have a: "length (annList_of (map fst ?ae)) = 3"
    by (simp add: filter_eval)
  have b: "length (imgList_of (map fst ?ie)) = 2"
    by (simp add: filter_eval)
  have 3: "length (annList_of (map fst ?ae)) \<noteq> length (imgList_of (map fst ?ie))"
    unfolding a b by simp
  show ?thesis
    using count_mismatch_aborts
      [where fs = fs_mismatch and annDir = "''/d/ann''" and imgDir = "''/d/img''", OF 1 2 3]
    unfolding a b str_nat_small .
qed

lemma sublist_wrap: "sublist xs ys \<Longrightarrow> sublist xs (ps @ ys @ ss)"
proof -
  assume "sublist xs ys"
  then obtain p s where "ys = p @ xs @ s"
    by (auto simp: sublist_def)
  then have "ps @ ys @ ss = (ps @ p) @ xs @ (s @ ss)"
    by simp
  then show ?thesis
    unfolding sublist_def by blast
qed

lemma sublist_str_join: "e \<in> set xs \<Longrightarrow> sublist e (str_join sep xs)"
proof (induction sep xs rule: str_join.induct)
  case (1 sep)
  then show ?case by simp
next
  case (2 sep x)
  then show ?case by simp
next
  case (3 sep x y ys)
  show ?case
  proof (cases "e = x")
    case True
    then show ?thesis by simp
  next
    case False
    with 3 have "sublist e (str_join sep (y # ys))"
      by simp
    then have "sublist e ((x @ sep) @ str_join sep (y # ys) @ [])"
      by (rule sublist_wrap)
    then show ?thesis by simp
  qed
qed

lemma final_message_eq:
  "final_message n errs =
     txt_done @ str_nat n @ txt_pairs @
       (if errs = [] then []
        else txt_some_errors @ str_join [CHR 0x0A] (take 5 errs) @
          (if 5 < length errs then txt_more_a @ str_nat (length errs - 5) @ txt_more_b
           else []))"
  by (simp add: final_message_def Let_def)

lemma final_message_count: "sublist (str_nat n) (final_message n errs)"
  unfolding final_message_eq by (rule sublist_appendI)

lemma final_message_sample:
  assumes "e \<in> set (take 5 errs)"
  shows "sublist e (final_message n errs)"
proof -
  have ne: "errs \<noteq> []"
    using assms by auto
  have "sublist e (str_join [CHR 0x0A] (take 5 errs))"
    using assms by (rule sublist_str_join)
  then have "sublist e ((txt_done @ str_nat n @ txt_pairs @ txt_some_errors)
      @ str_join [CHR 0x0A] (take 5 errs)
      @ (if 5 < length errs then txt_more_a @ str_nat (length errs - 5) @ txt_more_b else []))"
    by (rule sublist_wrap)
  then show ?thesis
    using ne by (simp add: final_message_eq)
qed

lemma final_message_rest:
  assumes "5 < length errs"
  shows "sublist (str_nat (length errs - 5)) (final_message n errs)"
proof -
  have ne: "errs \<noteq> []"
    using assms by auto
  have "sublist (str_nat (length errs - 5))
     ((txt_done @ str_nat n @ txt_pairs @ txt_some_errors
         @ str_join [CHR 0x0A] (take 5 errs) @ txt_more_a)
       @ str_nat (length errs - 5) @ txt_more_b)"
    by (rule sublist_appendI)
  then show ?thesis
    using ne assms by (simp add: final_message_eq)
qed

text \<open>
  Claim C7. When both directories exist and the candidate lists have equal length (the run
  is not aborted), the last signal is the outcome. Its flag is true exactly when the error
  list is empty. Its message is the completion text with the number of pairs, followed, when
  there are errors, by the first five of them joined by newlines and, when there are more
  than five, by the text with the number of the others. So the message contains the number
  of pairs, each of the first five errors verbatim, and the number of the remaining ones.
\<close>

theorem run_outcome:
  assumes "fs annDir = Some ae" and "fs imgDir = Some ie"
    and "length (annList_of (map fst ae)) = length (imgList_of (map fst ie))"
  defines "N \<equiv> length (zip (annList_of (map fst ae)) (imgList_of (map fst ie)))"
    and "errs \<equiv> errorList (run annDir imgDir fs)"
  shows "\<exists>msg. last (signals (run annDir imgDir fs)) = processingFinished (errs = []) msg
    \<and> sublist (str_nat N) msg
    \<and> msg = txt_done @ str_nat N @ txt_pairs @
        (if errs = [] then []
         else txt_some_errors @ str_join [CHR 0x0A] (take 5 errs) @
           (if 5 < length errs then txt_more_a @ str_nat (length errs - 5) @ txt_more_b
            else []))
    \<and> (\<forall>e \<in> set (take 5 errs). sublist e msg)
    \<and> (5 < length errs \<longrightarrow> sublist (str_nat (length errs - 5)) msg)"
proof -
  have "last (signals (run annDir imgDir fs)) =
      processingFinished (errs = []) (final_message N errs)"
    unfolding errs_def N_def run_complete [OF assms(1-3)] by (simp add: Let_def)
  moreover have "sublist (str_nat N) (final_message N errs)"
    by (rule final_message_count)
  moreover note final_message_eq [of N errs]
  moreover have "\<forall>e \<in> set (take 5 errs). sublist e (final_message N errs)"
    using final_message_sample by blast
  moreover have "5 < length errs \<longrightarrow>
      sublist (str_nat (length errs - 5)) (final_message N errs)"
    using final_message_rest by blast
  ultimately show ?thesis by blast
qed

lemma fs_mixed_dirs:
  "fs_mixed ''/d/ann'' =
     Some [(''b.xml'', File (Xml example_record)),
           (''a.XML'', File (NotXml ''<a'' ''unclosed token: line 1, column 0'')),
           (''readme.txt'', Folder)]"
  "fs_mixed ''/d/img'' = Some [(''x.JPG'', File jpeg_bytes), (''y.png'', File jpeg_bytes)]"
  by (simp_all add: fs_mixed_def)

lemma fs_mixed_lists:
  "annList_of (map fst [(''b.xml'', File (Xml example_record)),
           (''a.XML'', File (NotXml ''<a'' ''unclosed token: line 1, column 0'')),
           (''readme.txt'', Folder)]) = [''a.XML'', ''b.xml'']"
  "imgList_of (map fst [(''x.JPG'', File jpeg_bytes), (''y.png'', File jpeg_bytes)]) =
     [''x.JPG'', ''y.png'']"
  by (simp_all add: filter_eval)

lemma fs_mixed_errors:
  "errorList (run ''/d/ann'' ''/d/img'' fs_mixed) =
     [txt_update_err @ ''a.XML'' @ txt_err @ ''unclosed token: line 1, column 0'']"
  by code_simp

theorem run_outcome_witness:
  "\<exists>msg. last (signals (run ''/d/ann'' ''/d/img'' fs_mixed)) = processingFinished False msg
     \<and> sublist ''2'' msg
     \<and> msg = txt_done @ ''2'' @ txt_pairs @ txt_some_errors @ txt_update_err @ ''a.XML''
          @ txt_err @ ''unclosed token: line 1, column 0''
     \<and> sublist (txt_update_err @ ''a.XML'' @ txt_err @ ''unclosed token: line 1, column 0'')
          msg"
proof -
  have 3: "length (annList_of (map fst [(''b.xml'', File (Xml example_record)),
           (''a.XML'', File (NotXml ''<a'' ''unclosed token: line 1, column 0'')),
           (''readme.txt'', Folder)])) =
      length (imgList_of (map fst [(''x.JPG'', File jpeg_bytes), (''y.png'', File jpeg_bytes)]))"
    unfolding fs_mixed_lists by simp
  have n: "length (zip [''a.XML'', ''b.xml''] [''x.JPG'', ''y.png'']) = 2"
    by simp
  show ?thesis
    using run_outcome
      [where fs = fs_mixed and annDir = "''/d/ann''" and imgDir = "''/d/img''",
        OF fs_mixed_dirs 3]
    unfolding fs_mixed_lists fs_mixed_errors n by (simp add: str_nat_small)
qed

section \<open>Bookkeeping of the loop\<close>

lemma progress_events_append:
  "progress_events (xs @ ys) = progress_events xs @ progress_events ys"
  by (induction xs rule: progress_events.induct) simp_all

lemma update_error_is: "is_update_error (txt_update_err @ x)"
  by (simp add: is_update_error_def startswith_def)

lemma rename_ann_error_not: "\<not> is_update_error (txt_rename_ann_err @ x)"
  by (simp add: is_update_error_def startswith_def txt_update_err_def txt_rename_ann_err_def)

lemma rename_img_error_not: "\<not> is_update_error (txt_rename_img_err @ x)"
  by (simp add: is_update_error_def startswith_def txt_update_err_def txt_rename_img_err_def)

lemma try_update_cases:
  "(\<exists>e. try_update annDir imgDir T idx annFile ext st = Inl (e, st))
   \<or> (\<exists>fs'. try_update annDir imgDir T idx annFile ext st =
       Inr (st\<lparr>files := fs', currentProgress := currentProgress st + 1,
              signals := signals st @ [progressUpdated (currentProgress st + 1) T,
                                       logOutput (txt_updated @ annFile)]\<rparr>))"
  by (auto simp: try_update_def Let_def split: sum.splits)

lemma try_rename_ann_cases:
  "(\<exists>e fs'. try_rename_ann annDir T idx annFile st = Inl (e, st\<lparr>files := fs'\<rparr>))
   \<or> (\<exists>fs'. try_rename_ann annDir T idx annFile st =
       Inr (st\<lparr>files := fs', currentProgress := currentProgress st + 1,
              signals := signals st @ [progressUpdated (currentProgress st + 1) T,
                                       logOutput (txt_renamed_ann @ str_nat idx @ ''.xml'')]\<rparr>))"
  by (auto simp: try_rename_ann_def split: sum.splits prod.splits)

lemma try_rename_img_cases:
  "(\<exists>e fs'. try_rename_img imgDir T idx imgFile ext st = Inl (e, st\<lparr>files := fs'\<rparr>))
   \<or> (\<exists>fs'. try_rename_img imgDir T idx imgFile ext st =
       Inr (st\<lparr>files := fs', currentProgress := currentProgress st + 1,
              signals := signals st @ [progressUpdated (currentProgress st + 1) T,
                                       logOutput (txt_renamed_img @ str_nat idx @ ext)]\<rparr>))"
  by (auto simp: try_rename_img_def split: sum.splits prod.splits)

lemma advanced_refl: "advanced T 0 [] st st"
  by (simp add: advanced_def)

lemma advanced_trans:
  assumes "advanced T k errs st st'" and "advanced T k' errs' st' st''"
  shows "advanced T (k + k') (errs @ errs') st st''"
proof -
  let ?c = "currentProgress st"
  from assms(1) obtain evs where 1: "signals st' = signals st @ evs"
    "progress_events evs = map (\<lambda>c. (c, T)) [Suc ?c ..< Suc (?c + k)]"
    "\<forall>b m. processingFinished b m \<notin> set evs" "currentProgress st' = ?c + k"
    "errorList st' = errorList st @ errs"
    by (auto simp: advanced_def)
  from assms(2) obtain evs' where 2: "signals st'' = signals st' @ evs'"
    "progress_events evs' = map (\<lambda>c. (c, T)) [Suc (?c + k) ..< Suc (?c + k + k')]"
    "\<forall>b m. processingFinished b m \<notin> set evs'" "currentProgress st'' = ?c + k + k'"
    "errorList st'' = errorList st' @ errs'"
    by (auto simp: advanced_def 1(4))
  have "[Suc ?c ..< Suc (?c + k) + k'] = [Suc ?c ..< Suc (?c + k)] @ [Suc (?c + k) ..< Suc (?c + k) + k']"
    by (rule upt_add_eq_append) simp
  then have "progress_events (evs @ evs') = map (\<lambda>c. (c, T)) [Suc ?c ..< Suc (?c + (k + k'))]"
    using 1(2) 2(2) by (simp add: progress_events_append add.assoc del: upt_Suc)
  then show ?thesis
    unfolding advanced_def using 1 2 by (intro conjI exI [of _ "evs @ evs'"]) auto
qed

lemma advanced_files: "advanced T 0 [] st (st\<lparr>files := f\<rparr>)"
  by (simp add: advanced_def)

lemma advanced_error: "advanced T 0 [pre @ name @ txt_err @ str_exn e] st (record_error pre name e st)"
  by (simp add: advanced_def record_error_def)

lemma advanced_step:
  "advanced T 1 [] st (st\<lparr>files := f, currentProgress := currentProgress st + 1,
       signals := signals st @ [progressUpdated (currentProgress st + 1) T, logOutput l]\<rparr>)"
  by (simp add: advanced_def)

lemma process_pair_advanced:
  "\<exists>k errs. advanced T k errs st (process_pair annDir imgDir T idx annFile imgFile st)
     \<and> k + length errs + 2 * length (filter is_update_error errs) = 3"
proof -
  let ?ext = "lower (snd (splitext imgFile))"
  consider (fail) e where "try_update annDir imgDir T idx annFile ?ext st = Inl (e, st)"
  | (ok) st1 where "try_update annDir imgDir T idx annFile ?ext st = Inr st1" "advanced T 1 [] st st1"
    using try_update_cases [of annDir imgDir T idx annFile ?ext st] advanced_step by metis
  then show ?thesis
  proof cases
    case fail
    then have "process_pair annDir imgDir T idx annFile imgFile st = record_error txt_update_err annFile e st"
      by (simp add: process_pair_def)
    then show ?thesis
      using advanced_error [of T txt_update_err annFile e st] update_error_is
      by (intro exI [of _ 0] exI [of _ "[txt_update_err @ annFile @ txt_err @ str_exn e]"]) simp
  next
    case ok
    let ?r2 = "try_rename_ann annDir T idx annFile st1"
    let ?st2 = "case ?r2 of Inl (e, st') \<Rightarrow> record_error txt_rename_ann_err annFile e st' | Inr st' \<Rightarrow> st'"
    have 2: "\<exists>k errs. advanced T k errs st1 ?st2 \<and> k + length errs = 1 \<and> filter is_update_error errs = []"
      using try_rename_ann_cases [of annDir T idx annFile st1]
    proof (elim disjE exE)
      fix e fs' assume a: "?r2 = Inl (e, st1\<lparr>files := fs'\<rparr>)"
      have "advanced T (0 + 0) ([] @ [txt_rename_ann_err @ annFile @ txt_err @ str_exn e]) st1 (record_error txt_rename_ann_err annFile e (st1\<lparr>files := fs'\<rparr>))"
        by (rule advanced_trans [OF advanced_files advanced_error])
      then show ?thesis using a rename_ann_error_not
        by (intro exI [of _ 0] exI [of _ "[txt_rename_ann_err @ annFile @ txt_err @ str_exn e]"]) simp
    next
      fix fs' assume a: "?r2 = Inr (st1\<lparr>files := fs', currentProgress := currentProgress st1 + 1,
              signals := signals st1 @ [progressUpdated (currentProgress st1 + 1) T,
                                       logOutput (txt_renamed_ann @ str_nat idx @ ''.xml'')]\<rparr>)"
      show ?thesis unfolding a using advanced_step [of T st1]
        by (intro exI [of _ 1] exI [of _ "[]"]) simp
    qed
    let ?r3 = "try_rename_img imgDir T idx imgFile ?ext ?st2"
    let ?st3 = "case ?r3 of Inl (e, st') \<Rightarrow> record_error txt_rename_img_err imgFile e st' | Inr st' \<Rightarrow> st'"
    have 3: "\<exists>k errs. advanced T k errs ?st2 ?st3 \<and> k + length errs = 1 \<and> filter is_update_error errs = []"
      using try_rename_img_cases [of imgDir T idx imgFile ?ext ?st2]
    proof (elim disjE exE)
      fix e fs' assume a: "?r3 = Inl (e, ?st2\<lparr>files := fs'\<rparr>)"
      have "advanced T (0 + 0) ([] @ [txt_rename_img_err @ imgFile @ txt_err @ str_exn e]) ?st2 (record_error txt_rename_img_err imgFile e (?st2\<lparr>files := fs'\<rparr>))"
        by (rule advanced_trans [OF advanced_files advanced_error])
      then show ?thesis unfolding a using rename_img_error_not
        by (intro exI [of _ 0] exI [of _ "[txt_rename_img_err @ imgFile @ txt_err @ str_exn e]"]) simp
    next
      fix fs' assume a: "?r3 = Inr (?st2\<lparr>files := fs', currentProgress := currentProgress ?st2 + 1,
              signals := signals ?st2 @ [progressUpdated (currentProgress ?st2 + 1) T,
                                       logOutput (txt_renamed_img @ str_nat idx @ ?ext)]\<rparr>)"
      show ?thesis unfolding a using advanced_step [of T ?st2]
        by (intro exI [of _ 1] exI [of _ "[]"]) simp
    qed
    have pp: "process_pair annDir imgDir T idx annFile imgFile st = ?st3"
      using ok(1) by (simp add: process_pair_def Let_def)
    from 2 obtain k2 e2 where k2: "advanced T k2 e2 st1 ?st2" "k2 + length e2 = 1" "filter is_update_error e2 = []" by blast
    from 3 obtain k3 e3 where k3: "advanced T k3 e3 ?st2 ?st3" "k3 + length e3 = 1" "filter is_update_error e3 = []" by blast
    have "advanced T (1 + (k2 + k3)) ([] @ (e2 @ e3)) st ?st3"
      by (rule advanced_trans [OF ok(2) advanced_trans [OF k2(1) k3(1)]])
    then show ?thesis unfolding pp using k2(2,3) k3(2,3)
      by (intro exI [of _ "1 + (k2 + k3)"] exI [of _ "e2 @ e3"]) simp
  qed
qed

lemma process_pairs_advanced:
  "\<exists>k errs. advanced T k errs st (process_pairs annDir imgDir T idx ps st)
     \<and> k + length errs + 2 * length (filter is_update_error errs) = 3 * length ps"
proof (induction ps arbitrary: idx st)
  case Nil
  show ?case
    using advanced_refl [of T st] by (intro exI [of _ 0] exI [of _ "[]"]) simp
next
  case (Cons p ps)
  obtain a i where p: "p = (a, i)"
    by (cases p)
  let ?st1 = "process_pair annDir imgDir T idx a i st"
  obtain k1 e1 where 1: "advanced T k1 e1 st ?st1"
    "k1 + length e1 + 2 * length (filter is_update_error e1) = 3"
    using process_pair_advanced by blast
  obtain k2 e2 where 2: "advanced T k2 e2 ?st1 (process_pairs annDir imgDir T (idx + 1) ps ?st1)"
    "k2 + length e2 + 2 * length (filter is_update_error e2) = 3 * length ps"
    using Cons.IH by blast
  have "advanced T (k1 + k2) (e1 @ e2) st (process_pairs annDir imgDir T idx (p # ps) st)"
    unfolding p using advanced_trans [OF 1(1) 2(1)] by simp
  then show ?case
    using 1(2) 2(2) by (intro exI [of _ "k1 + k2"] exI [of _ "e1 @ e2"]) simp
qed

section \<open>Progress accounting\<close>

lemma run_loop:
  assumes "fs annDir = Some ae" and "fs imgDir = Some ie"
    and "length (annList_of (map fst ae)) = length (imgList_of (map fst ie))"
  defines "pairs \<equiv> zip (annList_of (map fst ae)) (imgList_of (map fst ie))"
  defines "T \<equiv> 3 * length pairs"
  defines "st1 \<equiv> (initial fs)\<lparr>signals := [progressUpdated 0 T,
                     logOutput (txt_found @ str_nat (length pairs) @ txt_pairs)]\<rparr>"
  defines "st2 \<equiv> process_pairs annDir imgDir T 1 pairs st1"
  shows "run annDir imgDir fs = st2\<lparr>signals := signals st2 @
          [processingFinished (errorList st2 = [])
             (final_message (length pairs) (errorList st2))]\<rparr>"
  using run_complete [OF assms(1-3)]
  by (simp add: Let_def pairs_def T_def st1_def st2_def mult.commute)

lemma run_advanced:
  assumes "fs annDir = Some ae" and "fs imgDir = Some ie"
    and "length (annList_of (map fst ae)) = length (imgList_of (map fst ie))"
  defines "N \<equiv> length (zip (annList_of (map fst ae)) (imgList_of (map fst ie)))"
  shows "\<exists>k errs evs. currentProgress (run annDir imgDir fs) = k
    \<and> errorList (run annDir imgDir fs) = errs
    \<and> signals (run annDir imgDir fs) =
         [progressUpdated 0 (3 * N), logOutput (txt_found @ str_nat N @ txt_pairs)] @ evs
           @ [processingFinished (errs = []) (final_message N errs)]
    \<and> progress_events evs = map (\<lambda>c. (c, 3 * N)) [Suc 0 ..< Suc k]
    \<and> (\<forall>b m. processingFinished b m \<notin> set evs)
    \<and> k + length errs + 2 * length (filter is_update_error errs) = 3 * N"
proof -
  let ?pairs = "zip (annList_of (map fst ae)) (imgList_of (map fst ie))"
  let ?st1 = "(initial fs)\<lparr>signals := [progressUpdated 0 (3 * N),
                     logOutput (txt_found @ str_nat N @ txt_pairs)]\<rparr>"
  let ?st2 = "process_pairs annDir imgDir (3 * N) 1 ?pairs ?st1"
  obtain k errs where a: "advanced (3 * N) k errs ?st1 ?st2"
    and c: "k + length errs + 2 * length (filter is_update_error errs) = 3 * N"
    using process_pairs_advanced [of "3 * N" ?st1 annDir imgDir 1 ?pairs] unfolding N_def by blast
  from a obtain evs where e: "signals ?st2 = signals ?st1 @ evs"
    "progress_events evs = map (\<lambda>c. (c, 3 * N)) [Suc 0 ..< Suc k]"
    "\<forall>b m. processingFinished b m \<notin> set evs"
    "currentProgress ?st2 = k" "errorList ?st2 = errs"
    by (auto simp: advanced_def initial_def)
  have r: "run annDir imgDir fs = ?st2\<lparr>signals := signals ?st2 @
          [processingFinished (errorList ?st2 = []) (final_message N (errorList ?st2))]\<rparr>"
    unfolding N_def by (rule run_loop [OF assms(1-3)])
  show ?thesis
    unfolding r using e c by (intro exI [of _ k] exI [of _ errs] exI [of _ evs]) simp
qed

text \<open>
  Claim C10. In a run that reaches the pairing stage with \<open>N\<close> pairs, the progress events
  are exactly \<open>(0, 3N), (1, 3N), \<dots>, (k, 3N)\<close>, where \<open>k\<close> is the final value of the
  counter: the first is \<open>(0, 3N)\<close>, every later one has the same total and a count one
  greater than the one before, and every count is at most \<open>3N\<close>. The final count plus the
  sub-steps that did not complete is \<open>3N\<close>: every entry of the error list is one failed
  sub-step, and every entry written by the handler of step 1 stands for two skipped renames
  as well.
\<close>

theorem progress_sequence:
  assumes "fs annDir = Some ae" and "fs imgDir = Some ie"
    and "length (annList_of (map fst ae)) = length (imgList_of (map fst ie))"
  defines "N \<equiv> length (zip (annList_of (map fst ae)) (imgList_of (map fst ie)))"
    and "r \<equiv> run annDir imgDir fs"
  defines "pe \<equiv> progress_events (signals r)"
    and "errs \<equiv> errorList r"
  shows "pe = map (\<lambda>c. (c, 3 * N)) [0 ..< Suc (currentProgress r)]
    \<and> hd pe = (0, 3 * N)
    \<and> (\<forall>i. Suc i < length pe \<longrightarrow>
          snd (pe ! Suc i) = 3 * N \<and> fst (pe ! Suc i) = fst (pe ! i) + 1)
    \<and> (\<forall>(c, t) \<in> set pe. c \<le> 3 * N \<and> t = 3 * N)
    \<and> fst (last pe) = currentProgress r
    \<and> currentProgress r + (length errs + 2 * length (filter is_update_error errs)) = 3 * N"
proof -
  obtain k errs' evs where a: "currentProgress r = k" "errorList r = errs'"
    "signals r = [progressUpdated 0 (3 * N), logOutput (txt_found @ str_nat N @ txt_pairs)]
       @ evs @ [processingFinished (errs' = []) (final_message N errs')]"
    "progress_events evs = map (\<lambda>c. (c, 3 * N)) [Suc 0 ..< Suc k]"
    "k + length errs' + 2 * length (filter is_update_error errs') = 3 * N"
    using run_advanced [OF assms(1-3)] unfolding N_def r_def by blast
  have "pe = (0, 3 * N) # map (\<lambda>c. (c, 3 * N)) [Suc 0 ..< Suc k]"
    unfolding pe_def a(3) using a(4) by (simp add: progress_events_append)
  also have "\<dots> = map (\<lambda>c. (c, 3 * N)) [0 ..< Suc k]"
    by (simp add: upt_conv_Cons del: upt_Suc)
  finally have pe: "pe = map (\<lambda>c. (c, 3 * N)) [0 ..< Suc (currentProgress r)]"
    using a(1) by simp
  have len: "length pe = Suc k" using pe a(1) by simp
  have nth: "\<And>i. i < Suc k \<Longrightarrow> pe ! i = (i, 3 * N)"
    using pe a(1) by (simp del: upt_Suc)
  have 2: "hd pe = (0, 3 * N)"
    using nth [of 0] len by (cases pe) simp_all
  have 3: "\<forall>i. Suc i < length pe \<longrightarrow>
          snd (pe ! Suc i) = 3 * N \<and> fst (pe ! Suc i) = fst (pe ! i) + 1"
    using nth len by simp
  have 4: "\<forall>(c, t) \<in> set pe. c \<le> 3 * N \<and> t = 3 * N"
    using pe a(1,5) by (auto simp del: upt_Suc)
  have ne: "pe \<noteq> []"
    using len by auto
  have 5: "fst (last pe) = currentProgress r"
    using nth [of k] len a(1) by (simp add: last_conv_nth [OF ne])
  have 6: "currentProgress r + (length errs + 2 * length (filter is_update_error errs)) = 3 * N"
    using a(1,2,5) by (simp add: errs_def)
  show ?thesis using pe 2 3 4 5 6 by blast
qed

lemma fs_mixed_progress:
  "currentProgress (run ''/d/ann'' ''/d/img'' fs_mixed) = 3"
  "progress_events (signals (run ''/d/ann'' ''/d/img'' fs_mixed)) = [(0, 6), (1, 6), (2, 6), (3, 6)]"
  by code_simp+

theorem progress_sequence_witness:
  "progress_events (signals (run ''/d/ann'' ''/d/img'' fs_mixed)) = [(0, 6), (1, 6), (2, 6), (3, 6)]
   \<and> length (errorList (run ''/d/ann'' ''/d/img'' fs_mixed)) = 1
   \<and> length (filter is_update_error (errorList (run ''/d/ann'' ''/d/img'' fs_mixed))) = 1
   \<and> currentProgress (run ''/d/ann'' ''/d/img'' fs_mixed) + (1 + 2 * 1) = 3 * 2"
proof -
  have 3: "length (annList_of (map fst [(''b.xml'', File (Xml example_record)),
           (''a.XML'', File (NotXml ''<a'' ''unclosed token: line 1, column 0'')),
           (''readme.txt'', Folder)])) =
      length (imgList_of (map fst [(''x.JPG'', File jpeg_bytes), (''y.png'', File jpeg_bytes)]))"
    unfolding fs_mixed_lists by simp
  have n: "length (zip [''a.XML'', ''b.xml''] [''x.JPG'', ''y.png'']) = 2"
    by simp
  show ?thesis
    using progress_sequence
      [where fs = fs_mixed and annDir = "''/d/ann''" and imgDir = "''/d/img''",
        OF fs_mixed_dirs 3]
    unfolding fs_mixed_lists fs_mixed_errors fs_mixed_progress n
    by (simp add: update_error_is)
qed

section \<open>The pair builder\<close>

lemma lower_char_slash: "lower_char c = CHR ''/'' \<longleftrightarrow> c = CHR ''/''"
  by (auto simp: lower_char_def split: if_splits)

lemma rfind_lower:
  assumes "\<And>x. lower_char x = c \<longleftrightarrow> x = c"
  shows "rfind (lower p) c = rfind p c"
  using assms by (induction p) (auto simp: lower_def Let_def)

lemma list_ex_lower_dot:
  "list_ex (\<lambda>c. c \<noteq> CHR ''.'') (lower s) = list_ex (\<lambda>c. c \<noteq> CHR ''.'') s"
  by (induction s) (auto simp: lower_def lower_char_dot)

lemma lower_take: "take n (lower s) = lower (take n s)"
  by (simp add: lower_def take_map)

lemma lower_drop: "drop n (lower s) = lower (drop n s)"
  by (simp add: lower_def drop_map)

lemma splitext_lower: "snd (splitext (lower p)) = lower (snd (splitext p))"
  by (simp add: splitext_def Let_def rfind_lower lower_char_dot lower_char_slash
      lower_take lower_drop list_ex_lower_dot) (simp add: lower_def)

lemma lower_char_idem: "lower_char (lower_char c) = lower_char c"
  by (auto simp: lower_char_def split: if_splits)

lemma lower_idem: "lower (lower s) = lower s"
  by (simp add: lower_def lower_char_idem)

lemma is_ann_lower: "is_ann f \<longleftrightarrow> is_ann (lower f)"
  by (simp add: is_ann_def lower_idem)

lemma is_img_lower: "is_img f \<longleftrightarrow> is_img (lower f)"
  by (simp add: is_img_def splitext_lower lower_idem)

lemma process_pairs_foldl:
  "process_pairs annDir imgDir totalSteps idx ps st =
     foldl (\<lambda>s (k, annFile, imgFile). process_pair annDir imgDir totalSteps k annFile imgFile s)
       st (zip [idx ..< idx + length ps] ps)"
proof (induction ps arbitrary: idx st)
  case Nil
  then show ?case by simp
next
  case (Cons p ps)
  obtain a i where p: "p = (a, i)" by (cases p)
  have "idx < idx + length (p # ps)" by simp
  then have "[idx ..< idx + length (p # ps)] = idx # [Suc idx ..< idx + length (p # ps)]"
    by (rule upt_conv_Cons)
  moreover have "idx + length (p # ps) = (idx + 1) + length ps" by simp
  ultimately have "[idx ..< idx + length (p # ps)] = idx # [idx + 1 ..< (idx + 1) + length ps]"
    by simp
  then show ?case using Cons.IH [of "idx + 1"] p by simp
qed

text \<open>
  Claim C3. When both directories exist and both candidate lists have length \<open>N\<close>: each
  list is sorted in the code-point order and holds exactly the names of its directory that
  pass its filter; both filters give the same answer for a name and for its lower-cased
  form. The pairs are \<open>N\<close>, pair \<open>i\<close> (counted from 1) is the \<open>i\<close>-th annotation name with
  the \<open>i\<close>-th image name, and the loop handles exactly these pairs under these indices. The
  first signal reports 0 steps of \<open>3N\<close>, every progress event carries the total \<open>3N\<close>, and
  the log reports \<open>N\<close> pairs.
\<close>

theorem pair_builder:
  assumes "fs annDir = Some ae" and "fs imgDir = Some ie"
  defines "annList \<equiv> annList_of (map fst ae)" and "imgList \<equiv> imgList_of (map fst ie)"
  assumes "length annList = N" and "length imgList = N"
  defines "pairs \<equiv> zip annList imgList"
  defines "r \<equiv> run annDir imgDir fs"
  defines "loop \<equiv> foldl (\<lambda>s (k, annFile, imgFile).
                     process_pair annDir imgDir (3 * N) k annFile imgFile s)
                   ((initial fs)\<lparr>signals := [progressUpdated 0 (3 * N),
                       logOutput (txt_found @ str_nat N @ txt_pairs)]\<rparr>)
                   (zip [1 ..< 1 + N] pairs)"
  shows "sorted annList \<and> mset annList = mset (filter is_ann (map fst ae))
    \<and> sorted imgList \<and> mset imgList = mset (filter is_img (map fst ie))
    \<and> (\<forall>f. is_ann f \<longleftrightarrow> is_ann (lower f)) \<and> (\<forall>f. is_img f \<longleftrightarrow> is_img (lower f))
    \<and> length pairs = N
    \<and> (\<forall>i < N. pairs ! i = (annList ! i, imgList ! i)
          \<and> zip [1 ..< 1 + N] pairs ! i = (i + 1, annList ! i, imgList ! i))
    \<and> hd (signals r) = progressUpdated 0 (3 * N)
    \<and> (\<forall>c t. progressUpdated c t \<in> set (signals r) \<longrightarrow> t = 3 * N)
    \<and> logOutput (txt_found @ str_nat N @ txt_pairs) \<in> set (signals r)
    \<and> files r = files loop \<and> errorList r = errorList loop
    \<and> currentProgress r = currentProgress loop"
proof -
  have len: "length pairs = N" using assms(5,6) by (simp add: pairs_def)
  have eq: "length (annList_of (map fst ae)) = length (imgList_of (map fst ie))"
    using assms(5,6) by (simp add: annList_def imgList_def)
  have s1: "sorted annList \<and> mset annList = mset (filter is_ann (map fst ae))"
    by (simp add: annList_def annList_of_def)
  have s2: "sorted imgList \<and> mset imgList = mset (filter is_img (map fst ie))"
    by (simp add: imgList_def imgList_of_def)
  have ci: "(\<forall>f. is_ann f \<longleftrightarrow> is_ann (lower f)) \<and> (\<forall>f. is_img f \<longleftrightarrow> is_img (lower f))"
    using is_ann_lower is_img_lower by blast
  have nth: "\<forall>i < N. pairs ! i = (annList ! i, imgList ! i)
          \<and> zip [1 ..< 1 + N] pairs ! i = (i + 1, annList ! i, imgList ! i)"
    using assms(5,6) by (simp add: pairs_def del: upt_Suc)
  let ?st1 = "(initial fs)\<lparr>signals := [progressUpdated 0 (3 * N),
                     logOutput (txt_found @ str_nat N @ txt_pairs)]\<rparr>"
  let ?st2 = "process_pairs annDir imgDir (3 * N) 1 pairs ?st1"
  have r: "r = ?st2\<lparr>signals := signals ?st2 @
          [processingFinished (errorList ?st2 = []) (final_message N (errorList ?st2))]\<rparr>"
    using run_loop [OF assms(1,2) eq] len unfolding r_def pairs_def annList_def imgList_def
    by simp
  obtain k errs evs where a: 
    "signals r = [progressUpdated 0 (3 * N), logOutput (txt_found @ str_nat N @ txt_pairs)]
       @ evs @ [processingFinished (errs = []) (final_message N errs)]"
    "progress_events evs = map (\<lambda>c. (c, 3 * N)) [Suc 0 ..< Suc k]"
    using run_advanced [OF assms(1,2) eq] len unfolding r_def pairs_def annList_def imgList_def
    by auto
  have h: "hd (signals r) = progressUpdated 0 (3 * N)"
    unfolding a(1) by simp
  have lg: "logOutput (txt_found @ str_nat N @ txt_pairs) \<in> set (signals r)"
    unfolding a(1) by simp
  have pe: "\<And>c t es. progressUpdated c t \<in> set es \<Longrightarrow> (c, t) \<in> set (progress_events es)"
  proof -
    fix c t es show "progressUpdated c t \<in> set es \<Longrightarrow> (c, t) \<in> set (progress_events es)"
      by (induction es rule: progress_events.induct) auto
  qed
  have tot: "\<forall>c t. progressUpdated c t \<in> set (signals r) \<longrightarrow> t = 3 * N"
  proof (intro allI impI)
    fix c t assume "progressUpdated c t \<in> set (signals r)"
    then have "(c, t) \<in> set (progress_events (signals r))" by (rule pe)
    then show "t = 3 * N"
      unfolding a(1) using a(2) by (auto simp: progress_events_append simp del: upt_Suc)
  qed
  have f: "?st2 = loop"
    unfolding loop_def
    using process_pairs_foldl [of annDir imgDir "3 * N" 1 pairs ?st1] len by simp
  have ex: "files r = files loop \<and> errorList r = errorList loop
    \<and> currentProgress r = currentProgress loop"
    using f r by simp
  show ?thesis using s1 s2 ci len nth h tot lg ex by blast
qed

theorem pair_builder_witness:
  "sorted [''a.XML'', ''b.xml''] \<and> sorted [''x.JPG'', ''y.png'']
   \<and> zip [''a.XML'', ''b.xml''] [''x.JPG'', ''y.png''] ! 1 = (''b.xml'', ''y.png'')
   \<and> zip [1 ..< 1 + 2] (zip [''a.XML'', ''b.xml''] [''x.JPG'', ''y.png'']) ! 1 =
        (2, ''b.xml'', ''y.png'')
   \<and> hd (signals (run ''/d/ann'' ''/d/img'' fs_mixed)) = progressUpdated 0 (3 * 2)"
proof -
  have a: "length (annList_of (map fst [(''b.xml'', File (Xml example_record)),
           (''a.XML'', File (NotXml ''<a'' ''unclosed token: line 1, column 0'')),
           (''readme.txt'', Folder)])) = 2"
    unfolding fs_mixed_lists by simp
  have b: "length (imgList_of (map fst [(''x.JPG'', File jpeg_bytes),
           (''y.png'', File jpeg_bytes)])) = 2"
    unfolding fs_mixed_lists by simp
  note t = pair_builder
      [where fs = fs_mixed and annDir = "''/d/ann''" and imgDir = "''/d/img''",
        OF fs_mixed_dirs a b, unfolded fs_mixed_lists]
  from t have s: "sorted [''a.XML'', ''b.xml''] \<and> sorted [''x.JPG'', ''y.png'']"
    by blast
  from t have h: "hd (signals (run ''/d/ann'' ''/d/img'' fs_mixed)) = progressUpdated 0 (3 * 2)"
    by blast
  from t have "\<forall>i<2. zip [''a.XML'', ''b.xml''] [''x.JPG'', ''y.png''] ! i =
       ([''a.XML'', ''b.xml''] ! i, [''x.JPG'', ''y.png''] ! i)
     \<and> zip [1 ..< 1 + 2] (zip [''a.XML'', ''b.xml''] [''x.JPG'', ''y.png'']) ! i =
       (i + 1, [''a.XML'', ''b.xml''] ! i, [''x.JPG'', ''y.png''] ! i)"
    by blast
  then have n: "zip [''a.XML'', ''b.xml''] [''x.JPG'', ''y.png''] ! 1 =
       ([''a.XML'', ''b.xml''] ! 1, [''x.JPG'', ''y.png''] ! 1)
     \<and> zip [1 ..< 1 + 2] (zip [''a.XML'', ''b.xml''] [''x.JPG'', ''y.png'']) ! 1 =
       (1 + 1, [''a.XML'', ''b.xml''] ! 1, [''x.JPG'', ''y.png''] ! 1)"
    by (rule allE [where x = 1]) simp
  show ?thesis
    using s h n by simp
qed

section \<open>The record patcher\<close>

lemma find_assign_same:
  assumes "List.find (\<lambda>c. tag c = name) cs = Some c"
  shows "List.find (\<lambda>c. tag c = name) (assign_text name t cs) =
           Some (Element (tag c) (attrib c) (Some t) (children c) (tail c))"
  using assms by (induction cs) (auto split: if_splits)

lemma find_assign_other:
  assumes "name' \<noteq> name"
  shows "List.find (\<lambda>c. tag c = name') (assign_text name t cs) =
           List.find (\<lambda>c. tag c = name') cs"
  using assms by (induction cs) auto

lemma find_snoc:
  "List.find P (xs @ [y]) =
     (case List.find P xs of Some x \<Rightarrow> Some x | None \<Rightarrow> if P y then Some y else None)"
  by (induction xs) auto

lemma filter_assign_other:
  "filter (\<lambda>c. tag c \<noteq> name) (assign_text name t cs) = filter (\<lambda>c. tag c \<noteq> name) cs"
  by (induction cs) auto

lemma set_field_same:
  "\<exists>c. find_elem (set_field name t root) name = Some c \<and> tag c = name \<and> etext c = Some t"
proof (cases "find_elem root name")
  case None
  then have "List.find (\<lambda>c. tag c = name) (children root @ [Element name [] None [] None]) =
      Some (Element name [] None [] None)"
    by (simp add: find_elem_def find_snoc)
  then show ?thesis
    using None find_assign_same [of name "children root @ [Element name [] None [] None]"]
    by (simp add: set_field_def find_elem_def SubElement_def)
next
  case (Some c)
  then have "tag c = name"
    by (auto simp: find_elem_def find_Some_iff)
  then show ?thesis
    using Some find_assign_same [of name "children root" c t]
    by (simp add: set_field_def find_elem_def)
qed

lemma set_field_other:
  assumes "name' \<noteq> name"
  shows "find_elem (set_field name t root) name' = find_elem root name'"
  using assms
  by (cases "find_elem root name")
    (auto simp: set_field_def find_elem_def SubElement_def find_assign_other find_snoc
      split: option.splits)

lemma set_field_rest:
  "filter (\<lambda>c. tag c \<noteq> name) (children (set_field name t root)) =
     filter (\<lambda>c. tag c \<noteq> name) (children root)"
  by (cases "find_elem root name")
    (simp_all add: set_field_def SubElement_def filter_assign_other)

lemma set_field_root:
  "tag (set_field name t root) = tag root \<and> attrib (set_field name t root) = attrib root
   \<and> etext (set_field name t root) = etext root \<and> tail (set_field name t root) = tail root"
  by (cases "find_elem root name") (simp_all add: set_field_def SubElement_def)

lemma length_assign_text: "length (assign_text name t cs) = length cs"
  by (induction cs) auto

lemma set_field_length:
  "length (children (set_field name t root)) =
     length (children root) + (if find_elem root name = None then 1 else 0)"
  by (cases "find_elem root name") (simp_all add: set_field_def SubElement_def length_assign_text)

lemma ET_parse_Inr:
  assumes "ET_parse fs d n = Inr root"
  shows "\<exists>es. fs d = Some es \<and> map_of es n = Some (File (Xml root))"
  using assms
  by (auto simp: ET_parse_def entry_def split: option.splits node.splits content.splits)

lemma entry_write:
  assumes "fs d = Some es"
  shows "entry (fs(d \<mapsto> AList.update n v es)) d' n' =
           (if d' = d \<and> n' = n then Some v else entry fs d' n')"
  using assms by (auto simp: entry_def update_conv')

text \<open>
  Claim C4. When the annotation file of the pair at index \<open>idx\<close> parses, step 1 succeeds
  and the same file then holds a record whose \<^verbatim>\<open>filename\<close> field is the index followed
  by the lower-cased image extension and whose \<^verbatim>\<open>path\<close> field is the image directory
  joined with that name. A field that was absent is created (the record gains one child for
  each), the other children, the tag, the attributes and the text of the root are kept, and
  no other entry of the file system changes. No error is recorded and the counter goes up
  by one.
\<close>

theorem patch_step:
  fixes imgFile :: string and idx :: nat
  assumes "ET_parse (files st) annDir annFile = Inr root"
  defines "img_ext \<equiv> lower (snd (splitext imgFile))"
  defines "newName \<equiv> str_nat idx @ img_ext"
  shows "\<exists>st1 root'.
      try_update annDir imgDir T idx annFile img_ext st = Inr st1
    \<and> entry (files st1) annDir annFile = Some (File (Xml root'))
    \<and> (\<exists>c. find_elem root' ''filename'' = Some c \<and> etext c = Some newName)
    \<and> (\<exists>c. find_elem root' ''path'' = Some c
           \<and> etext c = Some (os_path_join imgDir newName))
    \<and> length (children root') = length (children root)
         + (if find_elem root ''filename'' = None then 1 else 0)
         + (if find_elem root ''path'' = None then 1 else 0)
    \<and> filter (\<lambda>c. tag c \<noteq> ''filename'' \<and> tag c \<noteq> ''path'') (children root') =
        filter (\<lambda>c. tag c \<noteq> ''filename'' \<and> tag c \<noteq> ''path'') (children root)
    \<and> tag root' = tag root \<and> attrib root' = attrib root \<and> etext root' = etext root
    \<and> (\<forall>d n. (d, n) \<noteq> (annDir, annFile) \<longrightarrow> entry (files st1) d n = entry (files st) d n)
    \<and> errorList st1 = errorList st
    \<and> currentProgress st1 = currentProgress st + 1"
proof -
  let ?r1 = "set_field ''filename'' newName root"
  let ?r2 = "set_field ''path'' (os_path_join imgDir newName) ?r1"
  from assms(1) obtain es where es: "files st annDir = Some es"
    "map_of es annFile = Some (File (Xml root))"
    using ET_parse_Inr by blast
  let ?fs' = "(files st)(annDir \<mapsto> AList.update annFile (File (Xml ?r2)) es)"
  let ?st1 = "st\<lparr>files := ?fs', currentProgress := currentProgress st + 1,
                 signals := signals st @ [progressUpdated (currentProgress st + 1) T,
                                          logOutput (txt_updated @ annFile)]\<rparr>"
  have w: "tree_write (files st) annDir annFile ?r2 = Inr ?fs'"
    using es by (simp add: tree_write_def)
  have 1: "try_update annDir imgDir T idx annFile img_ext st = Inr ?st1"
    using assms(1) w by (simp add: try_update_def Let_def newName_def)
  have 2: "entry (files ?st1) annDir annFile = Some (File (Xml ?r2))"
    using es(1) by (simp add: entry_write)
  have ne: "''filename'' \<noteq> ''path''"
    by simp
  have 3: "\<exists>c. find_elem ?r2 ''filename'' = Some c \<and> etext c = Some newName"
    using set_field_same [of "''filename''" newName root] set_field_other [OF ne]
    by auto
  have 4: "\<exists>c. find_elem ?r2 ''path'' = Some c \<and> etext c = Some (os_path_join imgDir newName)"
    using set_field_same [of "''path''" "os_path_join imgDir newName" ?r1] by auto
  have "find_elem ?r1 ''path'' = find_elem root ''path''"
    using set_field_other [of "''path''" "''filename''"] by simp
  then have 5: "length (children ?r2) = length (children root)
         + (if find_elem root ''filename'' = None then 1 else 0)
         + (if find_elem root ''path'' = None then 1 else 0)"
    by (simp add: set_field_length)
  have "filter (\<lambda>c. tag c \<noteq> ''filename'') (filter (\<lambda>c. tag c \<noteq> ''path'') (children ?r2)) =
        filter (\<lambda>c. tag c \<noteq> ''filename'') (filter (\<lambda>c. tag c \<noteq> ''path'') (children ?r1))"
    by (simp only: set_field_rest)
  also have "\<dots> = filter (\<lambda>c. tag c \<noteq> ''path'') (filter (\<lambda>c. tag c \<noteq> ''filename'') (children ?r1))"
    by (simp add: conj_commute)
  also have "\<dots> = filter (\<lambda>c. tag c \<noteq> ''path'') (filter (\<lambda>c. tag c \<noteq> ''filename'') (children root))"
    by (simp only: set_field_rest)
  finally have 6: "filter (\<lambda>c. tag c \<noteq> ''filename'' \<and> tag c \<noteq> ''path'') (children ?r2) =
        filter (\<lambda>c. tag c \<noteq> ''filename'' \<and> tag c \<noteq> ''path'') (children root)"
    by (simp add: conj_commute)
  have 7: "tag ?r2 = tag root \<and> attrib ?r2 = attrib root \<and> etext ?r2 = etext root"
    by (simp add: set_field_root)
  have 8: "\<forall>d n. (d, n) \<noteq> (annDir, annFile) \<longrightarrow> entry (files ?st1) d n = entry (files st) d n"
    using es(1) by (simp add: entry_write)
  have 9: "errorList ?st1 = errorList st \<and> currentProgress ?st1 = currentProgress st + 1"
    by simp
  show ?thesis
    using 1 2 3 4 5 6 7 8 9 by (intro exI [of _ ?st1] exI [of _ ?r2]) blast
qed

lemma ex2_mono:
  assumes "\<exists>a b. P a b" and "\<And>a b. P a b \<Longrightarrow> Q a b"
  shows "\<exists>a b. Q a b"
  using assms by blast

theorem patch_step_witness:
  "\<exists>st1 root'.
      try_update ''/d/ann'' ''/d/img'' 6 2 ''b.xml'' ''.png'' (initial fs_mixed) = Inr st1
    \<and> entry (files st1) ''/d/ann'' ''b.xml'' = Some (File (Xml root'))
    \<and> (\<exists>c. find_elem root' ''filename'' = Some c \<and> etext c = Some ''2.png'')
    \<and> (\<exists>c. find_elem root' ''path'' = Some c \<and> etext c = Some ''/d/img/2.png'')
    \<and> length (children root') = 2"
proof -
  have p: "ET_parse (files (initial fs_mixed)) ''/d/ann'' ''b.xml'' = Inr example_record"
    by (simp add: ET_parse_def entry_def initial_def fs_mixed_def)
  have e: "lower (snd (splitext ''y.PNG'')) = ''.png''"
    by (simp add: splitext_def lower_def lower_char_def)
  have j: "os_path_join ''/d/img'' ''2.png'' = ''/d/img/2.png''"
    by (simp add: os_path_join_def startswith_def endswith_def)
  have f: "find_elem example_record ''filename'' \<noteq> None"
    "find_elem example_record ''path'' = None" "length (children example_record) = 1"
    by (simp_all add: find_elem_def example_record_def)
  show ?thesis
    by (rule ex2_mono [OF patch_step [OF p, where idx = 2 and imgFile = "''y.PNG''"
          and imgDir = "''/d/img''" and T = 6]])
      (simp add: e str_nat_small f j)
qed

section \<open>The renamer\<close>

lemma entry_upd:
  "entry (fs(d \<mapsto> es)) d' n = (if d' = d then map_of es n else entry fs d' n)"
  by (simp add: entry_def)

lemma os_remove_Inr:
  assumes "os_remove fs d n = Inr fs'"
  shows "\<exists>es. fs d = Some es \<and> fs' = fs(d \<mapsto> AList.delete n es)"
  using assms by (auto simp: os_remove_def split: option.splits node.splits)

lemma os_rename_fresh:
  assumes "os_rename fs d src dst = Inr fs'" and "entry fs d dst = None"
  shows "\<exists>es nd. fs d = Some es \<and> map_of es src = Some nd \<and> src \<noteq> dst
    \<and> fs' = fs(d \<mapsto> AList.delete src es @ [(dst, nd)])"
  using assms
  by (auto simp: os_rename_def entry_def split: option.splits if_splits node.splits)

lemma remove_and_rename_Inr:
  assumes "remove_and_rename fs d src dst = Inr fs'"
  shows "src \<noteq> dst
    \<and> (\<exists>nd. entry fs d src = Some nd \<and> entry fs' d dst = Some nd)
    \<and> entry fs' d src = None
    \<and> (\<forall>d' n. d' \<noteq> d \<or> (n \<noteq> src \<and> n \<noteq> dst) \<longrightarrow> entry fs' d' n = entry fs d' n)"
proof -
  define fs1 where "fs1 = (if os_path_exists fs d dst then os_remove fs d dst else Inr fs)"
  from assms obtain f1 where f1: "fs1 = Inr f1" and rn: "os_rename f1 d src dst = Inr fs'"
    by (auto simp: remove_and_rename_def fs1_def split: sum.splits)
  have gone: "entry f1 d dst = None"
    and same: "\<And>d' n. d' \<noteq> d \<or> n \<noteq> dst \<Longrightarrow> entry f1 d' n = entry fs d' n"
    using f1 os_remove_Inr [of fs d dst f1]
    by (auto simp: fs1_def os_path_exists_def entry_upd delete_conv' entry_def split: if_splits)
  from os_rename_fresh [OF rn gone] obtain es nd where
    es: "f1 d = Some es" "map_of es src = Some nd" "src \<noteq> dst"
      "fs' = f1(d \<mapsto> AList.delete src es @ [(dst, nd)])"
    by blast
  have dst_es: "map_of es dst = None"
    using gone es(1) by (simp add: entry_def)
  have 1: "entry fs d src = Some nd"
    using same [of d src] es(1,2,3) by (simp add: entry_def)
  have 2: "entry fs' d dst = Some nd"
    using es dst_es by (simp add: entry_upd map_add_def delete_conv')
  have 3: "entry fs' d src = None"
    using es by (simp add: entry_upd map_add_def delete_conv')
  have 4: "\<forall>d' n. d' \<noteq> d \<or> (n \<noteq> src \<and> n \<noteq> dst) \<longrightarrow> entry fs' d' n = entry fs d' n"
  proof (intro allI impI)
    fix d' n assume a: "d' \<noteq> d \<or> (n \<noteq> src \<and> n \<noteq> dst)"
    have "entry fs' d' n = entry f1 d' n"
      using a es
      by (auto simp: entry_upd map_add_def delete_conv' entry_def split: option.splits)
    also have "\<dots> = entry fs d' n"
      using a same by blast
    finally show "entry fs' d' n = entry fs d' n" .
  qed
  show ?thesis using es(3) 1 2 3 4 by blast
qed

text \<open>
  The image extension is not kept as it is. On the dataset with the one image
  \<^verbatim>\<open>photo.JPG\<close> the run records no error, the extension that \<^verbatim>\<open>splitext\<close> gives is
  \<^verbatim>\<open>.JPG\<close>, and afterwards there is no \<^verbatim>\<open>1.JPG\<close> in the image directory: the image is
  \<^verbatim>\<open>1.jpg\<close>.
\<close>

theorem image_extension_kept_counterexample:
  "errorList (run ''/d/ann'' ''/d/img'' fs_upper) = []
   \<and> snd (splitext ''photo.JPG'') = ''.JPG''
   \<and> entry (files (run ''/d/ann'' ''/d/img'' fs_upper)) ''/d/img''
        (str_nat 1 @ snd (splitext ''photo.JPG'')) = None
   \<and> entry (files (run ''/d/ann'' ''/d/img'' fs_upper)) ''/d/img'' ''1.jpg'' =
        Some (File jpeg_bytes)"
  by code_simp

text \<open>
  Claim C8, amended. When step 3 succeeds for the pair at index \<open>idx\<close>, the image is found
  under the index followed by its lower-cased extension (source line 54 lower-cases the
  extension on purpose), it is no longer found under its old name, which differs from the
  new one, and no other entry changes. For an image that passed the filter the lower-cased
  extension is one of the three accepted ones.
\<close>

theorem image_rename_lower:
  fixes imgFile :: string
  defines "img_ext \<equiv> lower (snd (splitext imgFile))"
  assumes "try_rename_img imgDir T idx imgFile img_ext st = Inr st'"
  shows "imgFile \<noteq> str_nat idx @ img_ext
    \<and> (\<exists>nd. entry (files st) imgDir imgFile = Some nd
          \<and> entry (files st') imgDir (str_nat idx @ img_ext) = Some nd)
    \<and> entry (files st') imgDir imgFile = None
    \<and> (\<forall>d n. d \<noteq> imgDir \<or> (n \<noteq> imgFile \<and> n \<noteq> str_nat idx @ img_ext) \<longrightarrow>
          entry (files st') d n = entry (files st) d n)
    \<and> (is_img imgFile \<longrightarrow> img_ext \<in> allowedImgExts)"
proof -
  from assms(2) obtain fs' where
    "remove_and_rename (files st) imgDir imgFile (str_nat idx @ img_ext) = Inr fs'"
    and "files st' = fs'"
    by (auto simp: try_rename_img_def split: sum.splits prod.splits)
  then show ?thesis
    using remove_and_rename_Inr [of "files st" imgDir imgFile "str_nat idx @ img_ext" fs']
    by (simp add: is_img_def img_ext_def)
qed

lemma str_nat_Suc_0: "str_nat (Suc 0) = ''1''"
  by (simp add: str_nat.simps digit_char_def)

theorem image_rename_lower_witness:
  "''photo.JPG'' \<noteq> ''1.jpg''
    \<and> entry fs_upper ''/d/img'' ''photo.JPG'' = Some (File jpeg_bytes)
    \<and> entry (fs_upper(''/d/img'' \<mapsto> [(''1.jpg'', File jpeg_bytes)])) ''/d/img'' ''1.jpg'' =
         Some (File jpeg_bytes)
    \<and> entry (fs_upper(''/d/img'' \<mapsto> [(''1.jpg'', File jpeg_bytes)])) ''/d/img'' ''photo.JPG'' =
         None"
proof -
  have e: "lower (snd (splitext ''photo.JPG'')) = ''.jpg''"
    by (simp add: splitext_def lower_def lower_char_def)
  have r: "try_rename_img ''/d/img'' 3 1 ''photo.JPG'' (lower (snd (splitext ''photo.JPG'')))
      (initial fs_upper) =
    Inr ((initial fs_upper)\<lparr>files := fs_upper(''/d/img'' \<mapsto> [(''1.jpg'', File jpeg_bytes)]),
          currentProgress := currentProgress (initial fs_upper) + 1,
          signals := signals (initial fs_upper) @
            [progressUpdated (currentProgress (initial fs_upper) + 1) 3,
             logOutput (txt_renamed_img @ str_nat 1 @ ''.jpg'')]\<rparr>)"
    unfolding e
    by (simp add: try_rename_img_def remove_and_rename_def os_path_exists_def entry_def
        os_rename_def initial_def fs_upper_def str_nat_Suc_0 AList.delete_eq)
  show ?thesis
    using image_rename_lower [OF r] unfolding e str_nat_small
    by (simp add: initial_def entry_def fs_upper_def)
qed

section \<open>Failures inside the loop\<close>

lemma process_pairs_append:
  "process_pairs annDir imgDir T idx (xs @ ys) st =
     process_pairs annDir imgDir T (idx + length xs) ys (process_pairs annDir imgDir T idx xs st)"
  by (induction xs arbitrary: idx st) auto

lemma process_pairs_errors:
  "\<exists>errs. errorList (process_pairs annDir imgDir T idx ps st) = errorList st @ errs"
  using process_pairs_advanced [of T st annDir imgDir idx ps] by (auto simp: advanced_def)

lemma try_update_Inl:
  assumes "try_update annDir imgDir T idx annFile ext st = Inl (e, s)"
  shows "s = st"
  using assms try_update_cases [of annDir imgDir T idx annFile ext st] by auto

lemma parse_failure_is_update_failure:
  assumes "ET_parse (files st) annDir annFile = Inl e"
  shows "try_update annDir imgDir T idx annFile ext st = Inl (e, st)"
  using assms by (simp add: try_update_def)

text \<open>
  Claim C5. Take a run that reaches the loop with \<open>N\<close> pairs, and a pair, with the pairs
  \<open>before\<close> it and \<open>after\<close> it, whose step 1 raises in the state \<open>st\<close> in which the loop
  reaches it (a file that does not parse is one such case, by the lemma
  \<open>parse_failure_is_update_failure\<close>). Then the iteration changes nothing but the error
  list, to which it appends exactly one entry, which contains the annotation file name: no
  file is touched and the counter stays, so both renames were skipped. The loop goes on with
  the pairs after it, from the next index, and the run ends in the state that this gives.
  The outcome has the flag false and a message that contains \<open>N\<close>.
\<close>

theorem patch_failure_isolated:
  fixes N :: nat
  assumes d1: "fs annDir = Some ae" and d2: "fs imgDir = Some ie"
    and eq: "length (annList_of (map fst ae)) = length (imgList_of (map fst ie))"
    and pairs: "zip (annList_of (map fst ae)) (imgList_of (map fst ie)) =
                  before @ (annFile, imgFile) # after"
    and N: "N = length before + 1 + length after"
    and st: "st = process_pairs annDir imgDir (3 * N) 1 before
                ((initial fs)\<lparr>signals := [progressUpdated 0 (3 * N),
                     logOutput (txt_found @ str_nat N @ txt_pairs)]\<rparr>)"
    and fail: "try_update annDir imgDir (3 * N) (length before + 1) annFile
                 (lower (snd (splitext imgFile))) st = Inl (e, s)"
  defines "err \<equiv> txt_update_err @ annFile @ txt_err @ str_exn e"
  defines "st' \<equiv> process_pair annDir imgDir (3 * N) (length before + 1) annFile imgFile st"
  defines "fin \<equiv> process_pairs annDir imgDir (3 * N) (length before + 2) after st'"
  shows "st' = st\<lparr>errorList := errorList st @ [err]\<rparr>
    \<and> sublist annFile err
    \<and> files (run annDir imgDir fs) = files fin
    \<and> currentProgress (run annDir imgDir fs) = currentProgress fin
    \<and> errorList (run annDir imgDir fs) = errorList fin
    \<and> (\<exists>errs. errorList fin = errorList st @ err # errs)
    \<and> last (signals (run annDir imgDir fs)) =
         processingFinished False (final_message N (errorList fin))
    \<and> sublist (str_nat N) (final_message N (errorList fin))"
proof -
  have s: "s = st"
    using fail by (rule try_update_Inl)
  have 1: "st' = st\<lparr>errorList := errorList st @ [err]\<rparr>"
    using fail s by (simp add: st'_def process_pair_def record_error_def err_def)
  have 2: "sublist annFile err"
    unfolding err_def by (rule sublist_appendI)
  let ?pairs = "zip (annList_of (map fst ae)) (imgList_of (map fst ie))"
  have len: "length ?pairs = N"
    using pairs N by simp
  let ?st1 = "(initial fs)\<lparr>signals := [progressUpdated 0 (3 * N),
                     logOutput (txt_found @ str_nat N @ txt_pairs)]\<rparr>"
  have "process_pairs annDir imgDir (3 * N) 1 ?pairs ?st1 =
      process_pairs annDir imgDir (3 * N) (1 + length before) ((annFile, imgFile) # after) st"
    unfolding pairs st by (rule process_pairs_append)
  also have "\<dots> = fin"
    by (simp add: fin_def st'_def add.commute)
  finally have loop: "process_pairs annDir imgDir (3 * N) 1 ?pairs ?st1 = fin" .
  have r: "run annDir imgDir fs = fin\<lparr>signals := signals fin @
          [processingFinished (errorList fin = []) (final_message N (errorList fin))]\<rparr>"
    using run_loop [OF d1 d2 eq] loop len by simp
  obtain errs where "errorList fin = errorList st' @ errs"
    unfolding fin_def using process_pairs_errors by blast
  then have 3: "errorList fin = errorList st @ err # errs"
    using 1 by simp
  then have ne: "errorList fin \<noteq> []"
    by simp
  have 4: "last (signals (run annDir imgDir fs)) =
         processingFinished False (final_message N (errorList fin))"
    unfolding r using ne by simp
  have 5: "sublist (str_nat N) (final_message N (errorList fin))"
    by (rule final_message_count)
  show ?thesis
    using 1 2 3 4 5 r by simp
qed

theorem patch_failure_isolated_witness:
  "sublist ''a.XML'' (txt_update_err @ ''a.XML'' @ txt_err @ ''unclosed token: line 1, column 0'')
   \<and> last (signals (run ''/d/ann'' ''/d/img'' fs_mixed)) =
        processingFinished False (final_message 2 (errorList (run ''/d/ann'' ''/d/img'' fs_mixed)))
   \<and> sublist (str_nat 2) (final_message 2 (errorList (run ''/d/ann'' ''/d/img'' fs_mixed)))"
proof -
  let ?st1 = "(initial fs_mixed)\<lparr>signals := [progressUpdated 0 (3 * 2),
                     logOutput (txt_found @ str_nat 2 @ txt_pairs)]\<rparr>"
  have eq: "length (annList_of (map fst [(''b.xml'', File (Xml example_record)),
           (''a.XML'', File (NotXml ''<a'' ''unclosed token: line 1, column 0'')),
           (''readme.txt'', Folder)])) =
      length (imgList_of (map fst [(''x.JPG'', File jpeg_bytes), (''y.png'', File jpeg_bytes)]))"
    unfolding fs_mixed_lists by simp
  have pairs: "zip (annList_of (map fst [(''b.xml'', File (Xml example_record)),
           (''a.XML'', File (NotXml ''<a'' ''unclosed token: line 1, column 0'')),
           (''readme.txt'', Folder)]))
         (imgList_of (map fst [(''x.JPG'', File jpeg_bytes), (''y.png'', File jpeg_bytes)])) =
       [] @ (''a.XML'', ''x.JPG'') # [(''b.xml'', ''y.png'')]"
    unfolding fs_mixed_lists by simp
  have N: "(2::nat) = length ([] :: (string \<times> string) list) + 1
      + length [(''b.xml'', ''y.png'')]"
    by simp
  have st: "?st1 = process_pairs ''/d/ann'' ''/d/img'' (3 * 2) 1 [] ?st1"
    by simp
  have fail: "try_update ''/d/ann'' ''/d/img'' (3 * 2)
      (length ([] :: (string \<times> string) list) + 1) ''a.XML''
      (lower (snd (splitext ''x.JPG''))) ?st1 =
        Inl (ParseError ''unclosed token: line 1, column 0'', ?st1)"
    by (simp add: try_update_def ET_parse_def entry_def initial_def fs_mixed_def)
  note t = patch_failure_isolated
    [where fs = fs_mixed and annDir = "''/d/ann''" and imgDir = "''/d/img''",
      OF fs_mixed_dirs eq pairs N st fail]
  from t show ?thesis
    by (elim conjE exE) (simp only: str_exn.simps simp_thms)
qed

lemma try_rename_ann_Inl:
  "try_rename_ann annDir T idx annFile st = Inl (e, s) \<longleftrightarrow>
     (\<exists>fs'. remove_and_rename (files st) annDir annFile (str_nat idx @ ''.xml'') = Inl (e, fs')
        \<and> s = st\<lparr>files := fs'\<rparr>)"
  by (auto simp: try_rename_ann_def split: sum.splits prod.splits)

lemma try_update_Inr:
  assumes "try_update annDir imgDir T idx annFile ext st = Inr st1"
  shows "errorList st1 = errorList st \<and> currentProgress st1 = currentProgress st + 1"
  using assms try_update_cases [of annDir imgDir T idx annFile ext st] by auto

text \<open>
  Claim C6. Take a run that reaches the loop with \<open>N\<close> pairs and a pair whose step 1
  succeeded, giving the state \<open>st1\<close>. With \<open>r2\<close> the result of step 2 on \<open>st1\<close>, \<open>st2\<close>
  the state after its handler, \<open>r3\<close> the result of step 3 on \<open>st2\<close> and \<open>st3\<close> the state
  after its handler, the iteration ends in \<open>st3\<close>: step 3 is attempted whatever \<open>r2\<close> is.
  When step 2 failed, \<open>st2\<close> has one more error, naming the annotation file, and the
  counter of \<open>st1\<close>. Step 3 then succeeds or fails according to the files of \<open>st2\<close> alone:
  when the removal and rename of the image succeed it counts one step and records nothing,
  when they fail it records one error. In every case the loop goes on with the pairs after
  this one, and the run ends with the ordinary outcome, built from the state that this
  gives.
\<close>

theorem renames_independent:
  fixes N :: nat
  assumes d1: "fs annDir = Some ae" and d2: "fs imgDir = Some ie"
    and eq: "length (annList_of (map fst ae)) = length (imgList_of (map fst ie))"
    and pairs: "zip (annList_of (map fst ae)) (imgList_of (map fst ie)) =
                  before @ (annFile, imgFile) # after"
    and N: "N = length before + 1 + length after"
    and st: "st = process_pairs annDir imgDir (3 * N) 1 before
                ((initial fs)\<lparr>signals := [progressUpdated 0 (3 * N),
                     logOutput (txt_found @ str_nat N @ txt_pairs)]\<rparr>)"
    and ok: "try_update annDir imgDir (3 * N) (length before + 1) annFile
                 (lower (snd (splitext imgFile))) st = Inr st1"
    and idx: "idx = length before + 1"
    and img_ext: "img_ext = lower (snd (splitext imgFile))"
    and r2: "r2 = try_rename_ann annDir (3 * N) idx annFile st1"
    and st2: "st2 = (case r2 of Inl (e, s) \<Rightarrow> record_error txt_rename_ann_err annFile e s
                   | Inr s \<Rightarrow> s)"
    and r3: "r3 = try_rename_img imgDir (3 * N) idx imgFile img_ext st2"
    and st3: "st3 = (case r3 of Inl (e, s) \<Rightarrow> record_error txt_rename_img_err imgFile e s
                   | Inr s \<Rightarrow> s)"
    and fin: "fin = process_pairs annDir imgDir (3 * N) (idx + 1) after st3"
  shows "process_pair annDir imgDir (3 * N) idx annFile imgFile st = st3
    \<and> (\<forall>e s. r2 = Inl (e, s) \<longrightarrow>
          errorList st2 = errorList st @ [txt_rename_ann_err @ annFile @ txt_err @ str_exn e]
          \<and> currentProgress st2 = currentProgress st + 1)
    \<and> (\<forall>fs'. remove_and_rename (files st2) imgDir imgFile (str_nat idx @ img_ext) = Inr fs'
          \<longrightarrow> files st3 = fs' \<and> errorList st3 = errorList st2
            \<and> currentProgress st3 = currentProgress st2 + 1)
    \<and> (\<forall>e fs'. remove_and_rename (files st2) imgDir imgFile (str_nat idx @ img_ext) =
            Inl (e, fs')
          \<longrightarrow> files st3 = fs'
            \<and> errorList st3 =
                errorList st2 @ [txt_rename_img_err @ imgFile @ txt_err @ str_exn e]
            \<and> currentProgress st3 = currentProgress st2)
    \<and> files (run annDir imgDir fs) = files fin
    \<and> errorList (run annDir imgDir fs) = errorList fin
    \<and> currentProgress (run annDir imgDir fs) = currentProgress fin
    \<and> last (signals (run annDir imgDir fs)) =
         processingFinished (errorList fin = []) (final_message N (errorList fin))"
proof -
  have 1: "process_pair annDir imgDir (3 * N) idx annFile imgFile st = st3"
    using ok by (simp add: process_pair_def Let_def st3 r3 st2 r2 idx
        img_ext)
  have 2: "\<forall>e s. r2 = Inl (e, s) \<longrightarrow>
          errorList st2 = errorList st @ [txt_rename_ann_err @ annFile @ txt_err @ str_exn e]
          \<and> currentProgress st2 = currentProgress st + 1"
  proof (intro allI impI)
    fix e s assume a: "r2 = Inl (e, s)"
    then obtain fs' where "s = st1\<lparr>files := fs'\<rparr>"
      unfolding r2 try_rename_ann_Inl by blast
    then show "errorList st2 = errorList st @ [txt_rename_ann_err @ annFile @ txt_err @ str_exn e]
          \<and> currentProgress st2 = currentProgress st + 1"
      using a try_update_Inr [OF ok] by (simp add: st2 record_error_def)
  qed
  have 3: "\<forall>fs'. remove_and_rename (files st2) imgDir imgFile (str_nat idx @ img_ext) = Inr fs'
          \<longrightarrow> files st3 = fs' \<and> errorList st3 = errorList st2
            \<and> currentProgress st3 = currentProgress st2 + 1"
    by (auto simp: st3 r3 try_rename_img_def)
  have 4: "\<forall>e fs'. remove_and_rename (files st2) imgDir imgFile (str_nat idx @ img_ext) =
            Inl (e, fs')
          \<longrightarrow> files st3 = fs'
            \<and> errorList st3 =
                errorList st2 @ [txt_rename_img_err @ imgFile @ txt_err @ str_exn e]
            \<and> currentProgress st3 = currentProgress st2"
    by (auto simp: st3 r3 try_rename_img_def record_error_def)
  let ?pairs = "zip (annList_of (map fst ae)) (imgList_of (map fst ie))"
  have len: "length ?pairs = N"
    using pairs N by simp
  let ?st1 = "(initial fs)\<lparr>signals := [progressUpdated 0 (3 * N),
                     logOutput (txt_found @ str_nat N @ txt_pairs)]\<rparr>"
  have "process_pairs annDir imgDir (3 * N) 1 ?pairs ?st1 =
      process_pairs annDir imgDir (3 * N) (1 + length before) ((annFile, imgFile) # after) st"
    unfolding pairs st by (rule process_pairs_append)
  also have "\<dots> = fin"
    using 1 by (simp add: fin idx add.commute)
  finally have loop: "process_pairs annDir imgDir (3 * N) 1 ?pairs ?st1 = fin" .
  have r: "run annDir imgDir fs = fin\<lparr>signals := signals fin @
          [processingFinished (errorList fin = []) (final_message N (errorList fin))]\<rparr>"
    using run_loop [OF d1 d2 eq] loop len by simp
  show ?thesis
    using 1 2 3 4 r by simp
qed

lemma fs_named_dirs:
  "fs_named ''/d/ann'' = Some [(''1.xml'', File (Xml example_record))]"
  "fs_named ''/d/img'' = Some [(''a.jpg'', File jpeg_bytes)]"
  by (simp_all add: fs_named_def)

lemma fs_named_lists:
  "annList_of (map fst [(''1.xml'', File (Xml example_record))]) = [''1.xml'']"
  "imgList_of (map fst [(''a.jpg'', File jpeg_bytes)]) = [''a.jpg'']"
  by (simp_all add: filter_eval)

lemma ext_jpg: "lower (snd (splitext ''a.jpg'')) = ''.jpg''"
  by (simp add: splitext_def lower_def lower_char_def)

theorem renames_independent_witness:
  "errorList (run ''/d/ann'' ''/d/img'' fs_named) =
     [txt_rename_ann_err @ ''1.xml'' @ txt_err
        @ str_exn (ENOENT2 ''/d/ann/1.xml'' ''/d/ann/1.xml'')]
   \<and> currentProgress (run ''/d/ann'' ''/d/img'' fs_named) = 2
   \<and> entry (files (run ''/d/ann'' ''/d/img'' fs_named)) ''/d/img'' ''1.jpg'' =
        Some (File jpeg_bytes)
   \<and> entry (files (run ''/d/ann'' ''/d/img'' fs_named)) ''/d/ann'' ''1.xml'' = None"
proof -
  let ?st0 = "(initial fs_named)\<lparr>signals := [progressUpdated 0 (3 * 1),
                     logOutput (txt_found @ str_nat 1 @ txt_pairs)]\<rparr>"
  let ?F0 = "fs_named(''/d/ann'' \<mapsto> [(''1.xml'', File (Xml normal_record))])"
  let ?X = "?st0\<lparr>files := ?F0, currentProgress := currentProgress ?st0 + 1,
       signals := signals ?st0 @ [progressUpdated (currentProgress ?st0 + 1) (3 * 1),
                                  logOutput (txt_updated @ ''1.xml'')]\<rparr>"
  let ?F1 = "fs_named(''/d/ann'' \<mapsto> [])"
  let ?F2 = "?F1(''/d/img'' \<mapsto> [(''1.jpg'', File jpeg_bytes)])"
  have eq: "length (annList_of (map fst [(''1.xml'', File (Xml example_record))])) =
      length (imgList_of (map fst [(''a.jpg'', File jpeg_bytes)]))"
    unfolding fs_named_lists by simp
  have pairs: "zip (annList_of (map fst [(''1.xml'', File (Xml example_record))]))
         (imgList_of (map fst [(''a.jpg'', File jpeg_bytes)])) =
       [] @ (''1.xml'', ''a.jpg'') # []"
    unfolding fs_named_lists by simp
  have N: "(1::nat) = length ([] :: (string \<times> string) list) + 1
      + length ([] :: (string \<times> string) list)"
    by simp
  have st: "?st0 = process_pairs ''/d/ann'' ''/d/img'' (3 * 1) 1 [] ?st0"
    by simp
  have ok: "try_update ''/d/ann'' ''/d/img'' (3 * 1)
      (length ([] :: (string \<times> string) list) + 1) ''1.xml''
      (lower (snd (splitext ''a.jpg''))) ?st0 = Inr ?X"
    unfolding ext_jpg
    by (simp add: try_update_def ET_parse_def tree_write_def entry_def initial_def
        fs_named_def example_record_def normal_record_def set_field_def find_elem_def
        SubElement_def str_nat_Suc_0 os_path_join_def startswith_def endswith_def)
  let ?E = "ENOENT2 ''/d/ann/1.xml'' ''/d/ann/1.xml''"
  let ?S2 = "record_error txt_rename_ann_err ''1.xml'' ?E (?X\<lparr>files := ?F1\<rparr>)"
  let ?S3 = "?S2\<lparr>files := ?F2, currentProgress := currentProgress ?S2 + 1,
       signals := signals ?S2 @ [progressUpdated (currentProgress ?S2 + 1) (3 * 1),
                                  logOutput (txt_renamed_img @ str_nat 1 @ ''.jpg'')]\<rparr>"
  have idx: "(1::nat) = length ([] :: (string \<times> string) list) + 1"
    by simp
  have r2: "Inl (?E, ?X\<lparr>files := ?F1\<rparr>) = try_rename_ann ''/d/ann'' (3 * 1) 1 ''1.xml'' ?X"
    by (simp add: try_rename_ann_def remove_and_rename_def os_path_exists_def entry_def
        os_remove_def os_rename_def str_nat_Suc_0 AList.delete_eq os_path_join_def
        startswith_def endswith_def)
  have st2: "?S2 = (case Inl (?E, ?X\<lparr>files := ?F1\<rparr>) of
        Inl (e, s) \<Rightarrow> record_error txt_rename_ann_err ''1.xml'' e s | Inr s \<Rightarrow> s)"
    by simp
  have r3: "Inr ?S3 = try_rename_img ''/d/img'' (3 * 1) 1 ''a.jpg'' ''.jpg'' ?S2"
    by (simp add: try_rename_img_def remove_and_rename_def os_path_exists_def entry_def
        fs_named_def os_rename_def str_nat_Suc_0 AList.delete_eq record_error_def)
  have st3: "?S3 = (case Inr ?S3 of
        Inl (e, s) \<Rightarrow> record_error txt_rename_img_err ''a.jpg'' e s | Inr s \<Rightarrow> s)"
    by simp
  have fin: "?S3 = process_pairs ''/d/ann'' ''/d/img'' (3 * 1) (1 + 1) [] ?S3"
    by simp
  note t = renames_independent
    [where fs = fs_named and annDir = "''/d/ann''" and imgDir = "''/d/img''",
      OF fs_named_dirs eq pairs N st ok idx ext_jpg [symmetric] r2 st2 r3 st3 fin]
  have e: "errorList ?S3 = [txt_rename_ann_err @ ''1.xml'' @ txt_err @ str_exn ?E]"
    by (simp add: record_error_def initial_def)
  have c: "currentProgress ?S3 = 2"
    by (simp add: record_error_def initial_def)
  have f: "entry (files ?S3) ''/d/img'' ''1.jpg'' = Some (File jpeg_bytes)"
    "entry (files ?S3) ''/d/ann'' ''1.xml'' = None"
    by (simp_all add: entry_def)
  from t have "files (run ''/d/ann'' ''/d/img'' fs_named) = files ?S3
    \<and> errorList (run ''/d/ann'' ''/d/img'' fs_named) = errorList ?S3
    \<and> currentProgress (run ''/d/ann'' ''/d/img'' fs_named) = currentProgress ?S3"
    by (elim conjE) (intro conjI; assumption)
  then show ?thesis
    unfolding e c using f by simp
qed

section \<open>Running the pipeline again\<close>

text \<open>
  Claim C1 does not hold of the code. The first run, on the dataset with \<^verbatim>\<open>a.xml\<close> and
  \<^verbatim>\<open>photo.JPG\<close>, records no error and leaves exactly the normalised dataset
  \<open>fs_normal\<close>: \<^verbatim>\<open>1.xml\<close> with both fields set, and \<^verbatim>\<open>1.jpg\<close>. A run on that dataset
  finds each file already at its new name, removes what is at the new name (source lines 82
  and 83, 94 and 95), and then fails to rename the file it has just removed: both
  directories end empty, two errors are recorded, only step 1 is counted and the outcome
  has the flag false.
\<close>

theorem rerun_destroys_dataset:
  "errorList (run ''/d/ann'' ''/d/img'' fs_upper) = []
   \<and> files (run ''/d/ann'' ''/d/img'' fs_upper) ''/d/ann'' = fs_normal ''/d/ann''
   \<and> files (run ''/d/ann'' ''/d/img'' fs_upper) ''/d/img'' = fs_normal ''/d/img''
   \<and> files (run ''/d/ann'' ''/d/img'' fs_normal) ''/d/ann'' = Some []
   \<and> files (run ''/d/ann'' ''/d/img'' fs_normal) ''/d/img'' = Some []
   \<and> length (errorList (run ''/d/ann'' ''/d/img'' fs_normal)) = 2
   \<and> currentProgress (run ''/d/ann'' ''/d/img'' fs_normal) = 1
   \<and> last (signals (run ''/d/ann'' ''/d/img'' fs_normal)) =
        processingFinished False
          (final_message 1 (errorList (run ''/d/ann'' ''/d/img'' fs_normal)))"
  by code_simp

end
